theory Spec2Isabelle
  imports Main
begin

section \<open>Data model\<close>

text \<open>
  A Python \<^verbatim>\<open>str\<close> is a sequence of Unicode code points, so it is modelled as a list
  of natural numbers; \<open>ustr\<close> embeds an ASCII literal.
\<close>

type_synonym pystr = "nat list"

definition ustr :: "string \<Rightarrow> pystr" where
  "ustr s = map of_char s"

text \<open>The dictionary \<^verbatim>\<open>{'title': ..., 'description': ...}\<close> every strategy returns.\<close>

record info =
  title :: pystr
  description :: pystr

text \<open>
  The exceptions the code can meet. All of them are subclasses of \<^verbatim>\<open>Exception\<close>;
  \<open>Raised\<close> is a plain \<^verbatim>\<open>raise Exception(msg)\<close>.
\<close>

datatype exn =
    UnicodeDecodeError
  | UnicodeEncodeError
  | RequestException
  | HTTPError
  | JSONDecodeError
  | AttributeError
  | IndexError
  | ValueError
  | Raised pystr

text \<open>
  A strategy is a thunk \<^verbatim>\<open>lambda: get_youtube_info_methodN(url)\<close>. Its invocation talks to
  the network, so it is a function of the state of the world \<open>'w\<close>: it either raises
  (\<open>Inl\<close>) or returns a result (\<open>Inr\<close>), and leaves a new state behind.
\<close>

type_synonym 'w strategy = "'w \<Rightarrow> (exn + info) \<times> 'w"

section \<open>Python string operations\<close>

text \<open>
  \<^verbatim>\<open>str.isspace\<close> for one code point: the characters \<^verbatim>\<open>str.strip()\<close> removes and the
  regular-expression class \<^verbatim>\<open>\s\<close> matches.
\<close>

definition py_isspace :: "nat \<Rightarrow> bool" where
  "py_isspace c \<longleftrightarrow>
     (9 \<le> c \<and> c \<le> 13) \<or> (28 \<le> c \<and> c \<le> 32) \<or> c = 0x85 \<or> c = 0xA0 \<or> c = 0x1680 \<or>
     (0x2000 \<le> c \<and> c \<le> 0x200A) \<or> c = 0x2028 \<or> c = 0x2029 \<or> c = 0x202F \<or>
     c = 0x205F \<or> c = 0x3000"

definition lstrip :: "pystr \<Rightarrow> pystr" where
  "lstrip s = dropWhile py_isspace s"

definition rstrip :: "pystr \<Rightarrow> pystr" where
  "rstrip s = rev (dropWhile py_isspace (rev s))"

definition strip :: "pystr \<Rightarrow> pystr" where
  "strip s = rstrip (lstrip s)"

text \<open>\<^verbatim>\<open>s.startswith(p)\<close> and the substring test \<^verbatim>\<open>sub in s\<close>.\<close>

definition startswith :: "pystr \<Rightarrow> pystr \<Rightarrow> bool" where
  "startswith s p \<longleftrightarrow> take (length p) s = p"

fun contains :: "pystr \<Rightarrow> pystr \<Rightarrow> bool" where
  "contains [] sub = (sub = [])"
| "contains (c # cs) sub = (startswith (c # cs) sub \<or> contains cs sub)"

text \<open>
  \<^verbatim>\<open>s.split(sep)\<close> for a separator that is not empty (every separator of the program is a
  literal): the pieces between the non-overlapping occurrences of \<open>sep\<close>, found from the
  left. Python raises \<^verbatim>\<open>ValueError\<close> for an empty separator; the model returns \<open>[s]\<close>.
\<close>

function split :: "pystr \<Rightarrow> pystr \<Rightarrow> pystr list" where
  "split [] sep = [[]]"
| "split (c # cs) sep =
     (if sep \<noteq> [] \<and> startswith (c # cs) sep
      then [] # split (drop (length sep) (c # cs)) sep
      else (case split cs sep of
              p # ps \<Rightarrow> (c # p) # ps
            | [] \<Rightarrow> [[c]]))"
  by pat_completeness auto
termination
  by (relation "measure (\<lambda>(s, sep). length s)") (auto simp: neq_Nil_conv)

text \<open>\<^verbatim>\<open>sep.join(parts)\<close>.\<close>

fun join :: "pystr \<Rightarrow> pystr list \<Rightarrow> pystr" where
  "join sep [] = []"
| "join sep [p] = p"
| "join sep (p # q # ps) = p @ sep @ join sep (q # ps)"

text \<open>
  \<^verbatim>\<open>s.replace(old, new)\<close>: every non-overlapping occurrence of \<open>old\<close>, from the left. With
  an empty \<open>old\<close> Python inserts \<open>new\<close> before every character and at the end.
\<close>

function replace :: "pystr \<Rightarrow> pystr \<Rightarrow> pystr \<Rightarrow> pystr" where
  "replace [] old new = (if old = [] then new else [])"
| "replace (c # cs) old new =
     (if old = [] then new @ c # replace cs old new
      else if startswith (c # cs) old then new @ replace (drop (length old) (c # cs)) old new
      else c # replace cs old new)"
  by pat_completeness auto
termination
  by (relation "measure (\<lambda>(s, old, new). length s)") (auto simp: neq_Nil_conv)

text \<open>
  \<^verbatim>\<open>re.sub(r'\n{3,}', '\n\n', s)\<close>: scanning from the left, a maximal run of three or more
  line feeds (code point 10) is replaced by two; any other character is kept.
\<close>

function sub_newlines :: "pystr \<Rightarrow> pystr" where
  "sub_newlines [] = []"
| "sub_newlines (c # cs) =
     (if 3 \<le> length (takeWhile (\<lambda>x. x = 10) (c # cs))
      then [10, 10] @ sub_newlines (dropWhile (\<lambda>x. x = 10) (c # cs))
      else c # sub_newlines cs)"
  by pat_completeness auto
termination
  by (relation "measure length") (auto simp: length_dropWhile_le less_Suc_eq_le split: if_splits)

section \<open>Codecs\<close>

text \<open>
  \<^verbatim>\<open>try: body except (classes): handler\<close>: the handler runs when the body raises an
  exception of one of the listed classes; any other exception propagates.
\<close>

fun try_except :: "exn + 'a \<Rightarrow> exn list \<Rightarrow> exn + 'a \<Rightarrow> exn + 'a" where
  "try_except (Inr v) classes handler = Inr v"
| "try_except (Inl e) classes handler = (if e \<in> set classes then handler else Inl e)"

text \<open>Sequencing of two steps that may raise.\<close>

fun and_then :: "exn + 'a \<Rightarrow> ('a \<Rightarrow> exn + 'b) \<Rightarrow> exn + 'b" where
  "and_then (Inl e) f = Inl e"
| "and_then (Inr v) f = f v"

text \<open>
  The \<^verbatim>\<open>errors\<close> argument of \<^verbatim>\<open>str.encode\<close>. A code point can be encoded in UTF-8 unless it
  is a surrogate; numbers from \<open>0x110000\<close> on are no code points of a Python string and
  are treated like surrogates.
\<close>

datatype errors = Strict | Ignore | Replace

definition encodable :: "nat \<Rightarrow> bool" where
  "encodable c \<longleftrightarrow> c < 0xD800 \<or> (0xDFFF < c \<and> c < 0x110000)"

definition utf8_bytes :: "nat \<Rightarrow> nat list" where
  "utf8_bytes c =
     (if c < 0x80 then [c]
      else if c < 0x800 then [0xC0 + c div 64, 0x80 + c mod 64]
      else if c < 0x10000 then [0xE0 + c div 4096, 0x80 + c div 64 mod 64, 0x80 + c mod 64]
      else [0xF0 + c div 262144, 0x80 + c div 4096 mod 64, 0x80 + c div 64 mod 64,
            0x80 + c mod 64])"

text \<open>\<^verbatim>\<open>s.encode('utf-8', errors=...)\<close>, the result as a list of bytes.\<close>

fun encode_utf8 :: "errors \<Rightarrow> pystr \<Rightarrow> exn + nat list" where
  "encode_utf8 h [] = Inr []"
| "encode_utf8 h (c # cs) =
     (if encodable c then and_then (encode_utf8 h cs) (\<lambda>bs. Inr (utf8_bytes c @ bs))
      else (case h of
              Strict \<Rightarrow> Inl UnicodeEncodeError
            | Ignore \<Rightarrow> encode_utf8 h cs
            | Replace \<Rightarrow> and_then (encode_utf8 h cs) (\<lambda>bs. Inr (63 # bs))))"

text \<open>\<^verbatim>\<open>s.encode('latin-1')\<close>: one byte per code point, none above 255.\<close>

definition encode_latin1 :: "pystr \<Rightarrow> exn + nat list" where
  "encode_latin1 s = (if \<forall>c\<in>set s. c < 256 then Inr s else Inl UnicodeEncodeError)"

definition continuation :: "nat \<Rightarrow> bool" where
  "continuation b \<longleftrightarrow> 0x80 \<le> b \<and> b \<le> 0xBF"

text \<open>
  One step of the strict UTF-8 decoder: the code point at the head of the bytes and the
  number of bytes after the first that it takes. Shortest encodings only, no surrogates,
  nothing above \<open>0x10FFFF\<close>; anything else is an error.
\<close>

definition utf8_step :: "nat \<Rightarrow> nat list \<Rightarrow> (nat \<times> nat) option" where
  "utf8_step b bs =
     (if b < 0x80 then Some (b, 0)
      else if 0xC2 \<le> b \<and> b \<le> 0xDF then
        (if 1 \<le> length bs \<and> continuation (bs ! 0)
         then Some ((b - 0xC0) * 64 + (bs ! 0 - 0x80), 1) else None)
      else if 0xE0 \<le> b \<and> b \<le> 0xEF then
        (if 2 \<le> length bs \<and> continuation (bs ! 0) \<and> continuation (bs ! 1) \<and>
            (b = 0xE0 \<longrightarrow> 0xA0 \<le> bs ! 0) \<and> (b = 0xED \<longrightarrow> bs ! 0 \<le> 0x9F)
         then Some ((b - 0xE0) * 4096 + (bs ! 0 - 0x80) * 64 + (bs ! 1 - 0x80), 2) else None)
      else if 0xF0 \<le> b \<and> b \<le> 0xF4 then
        (if 3 \<le> length bs \<and> continuation (bs ! 0) \<and> continuation (bs ! 1) \<and>
            continuation (bs ! 2) \<and> (b = 0xF0 \<longrightarrow> 0x90 \<le> bs ! 0) \<and>
            (b = 0xF4 \<longrightarrow> bs ! 0 \<le> 0x8F)
         then Some ((b - 0xF0) * 262144 + (bs ! 0 - 0x80) * 4096 + (bs ! 1 - 0x80) * 64 +
                    (bs ! 2 - 0x80), 3)
         else None)
      else None)"

text \<open>\<^verbatim>\<open>bytes.decode('utf-8')\<close>: a wrong sequence raises \<^verbatim>\<open>UnicodeDecodeError\<close>.\<close>

function decode_utf8 :: "nat list \<Rightarrow> exn + pystr" where
  "decode_utf8 [] = Inr []"
| "decode_utf8 (b # bs) =
     (case utf8_step b bs of
        None \<Rightarrow> Inl UnicodeDecodeError
      | Some (c, n) \<Rightarrow> and_then (decode_utf8 (drop n bs)) (\<lambda>cs. Inr (c # cs)))"
  by pat_completeness auto
termination
  by (relation "measure length") auto

subsection \<open>The \<^verbatim>\<open>unicode_escape\<close> decoder\<close>

definition hexdigit :: "nat \<Rightarrow> bool" where
  "hexdigit b \<longleftrightarrow> (48 \<le> b \<and> b \<le> 57) \<or> (97 \<le> b \<and> b \<le> 102) \<or> (65 \<le> b \<and> b \<le> 70)"

definition hexvalue :: "nat \<Rightarrow> nat" where
  "hexvalue b = (if b \<le> 57 then b - 48 else if 97 \<le> b then b - 87 else b - 55)"

definition hexnumber :: "nat list \<Rightarrow> nat" where
  "hexnumber ds = foldl (\<lambda>n d. 16 * n + hexvalue d) 0 ds"

definition octdigit :: "nat \<Rightarrow> bool" where
  "octdigit b \<longleftrightarrow> 48 \<le> b \<and> b \<le> 55"

definition octnumber :: "nat list \<Rightarrow> nat" where
  "octnumber ds = foldl (\<lambda>n d. 8 * n + (d - 48)) 0 ds"

text \<open>
  The escapes of one character: \<^verbatim>\<open>\\ \' \" \a \b \f \n \r \t \v\<close>, given by the byte after
  the backslash.
\<close>

definition simple_escape :: "nat \<Rightarrow> nat option" where
  "simple_escape b =
     (if b = 92 then Some 92 else if b = 39 then Some 39 else if b = 34 then Some 34
      else if b = 98 then Some 8 else if b = 102 then Some 12 else if b = 116 then Some 9
      else if b = 110 then Some 10 else if b = 114 then Some 13 else if b = 118 then Some 11
      else if b = 97 then Some 7 else None)"

text \<open>
  One step of the decoder of the interpreter after a backslash, with \<^verbatim>\<open>errors='strict'\<close>:
  \<open>c\<close> is the byte after the backslash and \<open>s\<close> the bytes after \<open>c\<close>. The result is the
  text the escape stands for and the number of bytes of \<open>s\<close> that belong to it. A line
  feed is dropped with the backslash; a one-character escape gives its character; up to
  three octal digits, \<^verbatim>\<open>\xHH\<close>, \<^verbatim>\<open>\uHHHH\<close> and \<^verbatim>\<open>\UHHHHHHHH\<close> give the code point of that
  number; \<^verbatim>\<open>\N{name}\<close> gives the character of that name; any other byte is kept together
  with the backslash. Too few or wrong hexadecimal digits, a number above \<open>0x10FFFF\<close>
  and an unknown or malformed name are errors. The table of character names belongs to
  the interpreter and is the parameter \<open>getcode\<close>.
\<close>

definition escape_step :: "(nat list \<Rightarrow> nat option) \<Rightarrow> nat \<Rightarrow> nat list \<Rightarrow> (pystr \<times> nat) option" where
  "escape_step getcode c s =
     (if c = 10 then Some ([], 0)
      else if simple_escape c \<noteq> None then Some ([the (simple_escape c)], 0)
      else if octdigit c then
        (let ds = takeWhile octdigit (take 2 s) in Some ([octnumber (c # ds)], length ds))
      else if c = 120 \<or> c = 117 \<or> c = 85 then
        (let n = (if c = 120 then 2 else if c = 117 then 4 else 8) in
         if n \<le> length s \<and> (\<forall>d\<in>set (take n s). hexdigit d) \<and> hexnumber (take n s) \<le> 0x10FFFF
         then Some ([hexnumber (take n s)], n) else None)
      else if c = 78 then
        (let name = takeWhile (\<lambda>x. x \<noteq> 125) (tl s) in
         if s \<noteq> [] \<and> hd s = 123 \<and> length name < length (tl s) \<and> name \<noteq> [] then
           (case getcode name of
              None \<Rightarrow> None
            | Some ch \<Rightarrow> Some ([ch], length name + 2))
         else None)
      else Some ([92, c], 0))"

text \<open>
  The decoder on the bytes of the text. A byte that is no backslash stands for the code
  point of the same number; a backslash at the end and an error in an escape raise
  \<^verbatim>\<open>UnicodeDecodeError\<close>.
\<close>

function unicode_escape_decode :: "(nat list \<Rightarrow> nat option) \<Rightarrow> nat list \<Rightarrow> exn + pystr" where
  "unicode_escape_decode getcode [] = Inr []"
| "unicode_escape_decode getcode (b # s) =
     (if b \<noteq> 92 then and_then (unicode_escape_decode getcode s) (\<lambda>r. Inr (b # r))
      else (case s of
              [] \<Rightarrow> Inl UnicodeDecodeError
            | c # t \<Rightarrow>
                (case escape_step getcode c t of
                   None \<Rightarrow> Inl UnicodeDecodeError
                 | Some (out, n) \<Rightarrow>
                     and_then (unicode_escape_decode getcode (drop n t)) (\<lambda>r. Inr (out @ r)))))"
  by pat_completeness auto
termination
  by (relation "measure (\<lambda>(g, s). length s)") auto

text \<open>
  \<^verbatim>\<open>codecs.decode(description, 'unicode_escape')\<close> on a \<^verbatim>\<open>str\<close>: the text is first encoded in
  UTF-8 (which raises \<^verbatim>\<open>UnicodeEncodeError\<close> on a surrogate), then the bytes are decoded.
\<close>

definition codecs_decode_unicode_escape :: "(nat list \<Rightarrow> nat option) \<Rightarrow> pystr \<Rightarrow> exn + pystr" where
  "codecs_decode_unicode_escape getcode s =
     and_then (encode_utf8 Strict s) (unicode_escape_decode getcode)"

section \<open>The normalizer \<^verbatim>\<open>clean_description\<close>\<close>

text \<open>
  \<^verbatim>\<open>str(e)\<close> in the handlers: the message of a raised \<^verbatim>\<open>Exception(msg)\<close>; for the
  exceptions of the library the interpreter's own text, which the model abbreviates to
  the name of the class.
\<close>

fun exn_str :: "exn \<Rightarrow> pystr" where
  "exn_str (Raised msg) = msg"
| "exn_str UnicodeDecodeError = ustr ''UnicodeDecodeError''"
| "exn_str UnicodeEncodeError = ustr ''UnicodeEncodeError''"
| "exn_str RequestException = ustr ''RequestException''"
| "exn_str HTTPError = ustr ''HTTPError''"
| "exn_str JSONDecodeError = ustr ''JSONDecodeError''"
| "exn_str AttributeError = ustr ''AttributeError''"
| "exn_str IndexError = ustr ''IndexError''"
| "exn_str ValueError = ustr ''ValueError''"

text \<open>
  The six calls of \<^verbatim>\<open>replace\<close> for the two-character escape sequences: backslash with
  \<^verbatim>\<open>n\<close>, \<^verbatim>\<open>r\<close>, \<^verbatim>\<open>t\<close>, the double quote, the single quote and the backslash.
\<close>

definition replace_escapes :: "pystr \<Rightarrow> pystr" where
  "replace_escapes d0 =
     (let d1 = replace d0 [92, 110] [10];
          d2 = replace d1 [92, 114] [13];
          d3 = replace d2 [92, 116] [9];
          d4 = replace d3 [92, 34] [34];
          d5 = replace d4 [92, 39] [39]
      in replace d5 [92, 92] [92])"

text \<open>
  The repair of text decoded one layer too early. The test is
  \<^verbatim>\<open>'\xf0' in description or any(ord(c) > 255 for c in description)\<close>; the inner handlers are
  \<^verbatim>\<open>encode('utf-8', errors='ignore').decode('utf-8')\<close> and, last, dropping every character
  that is not ASCII.
\<close>

definition fix_garbled :: "pystr \<Rightarrow> exn + pystr" where
  "fix_garbled d =
     try_except
       (if contains d [0xF0] \<or> (\<exists>c\<in>set d. c > 255)
        then and_then (encode_latin1 d) decode_utf8
        else Inr d)
       [UnicodeDecodeError, UnicodeEncodeError, AttributeError]
       (try_except
          (and_then (encode_utf8 Ignore d) decode_utf8)
          [UnicodeDecodeError, UnicodeEncodeError]
          (Inr (filter (\<lambda>c. c < 128) d)))"

text \<open>The loop over the lines: each line stripped, then joined again with line feeds.\<close>

definition clean_lines :: "pystr \<Rightarrow> pystr" where
  "clean_lines d = join [10] (map strip (split d [10]))"

text \<open>
  The final pass \<^verbatim>\<open>encode('utf-8').decode('utf-8')\<close>, on \<^verbatim>\<open>UnicodeError\<close> (the class above
  both Unicode errors) with \<^verbatim>\<open>errors='replace'\<close>.
\<close>

definition ensure_utf8 :: "pystr \<Rightarrow> exn + pystr" where
  "ensure_utf8 d =
     try_except
       (and_then (encode_utf8 Strict d) decode_utf8)
       [UnicodeDecodeError, UnicodeEncodeError]
       (and_then (encode_utf8 Replace d) decode_utf8)"

definition trim_long :: "pystr \<Rightarrow> pystr" where
  "trim_long d = (if length d > 2000 then take 2000 d @ ustr ''...'' else d)"

text \<open>
  The body of the outer \<^verbatim>\<open>try\<close>. \<open>Inl\<close> is an exception that leaves the body and reaches
  the outer handler.
\<close>

definition clean_description_body :: "(nat list \<Rightarrow> nat option) \<Rightarrow> pystr \<Rightarrow> exn + pystr" where
  "clean_description_body getcode raw_description =
     and_then
       (try_except (codecs_decode_unicode_escape getcode raw_description)
          [UnicodeDecodeError, UnicodeEncodeError] (Inr raw_description))
       (\<lambda>d1. and_then (fix_garbled (replace_escapes d1))
          (\<lambda>d2. and_then (ensure_utf8 (sub_newlines (clean_lines d2)))
             (\<lambda>d3. Inr (strip (trim_long d3)))))"

definition clean_description :: "(nat list \<Rightarrow> nat option) \<Rightarrow> pystr \<Rightarrow> pystr" where
  "clean_description getcode raw_description =
     (case clean_description_body getcode raw_description of
        Inr d \<Rightarrow> d
      | Inl e \<Rightarrow> ustr ''Error cleaning description: '' @ exn_str e)"

section \<open>The identifier parser \<^verbatim>\<open>get_video_id_from_url\<close>\<close>

text \<open>
  What the code reads of the result of \<^verbatim>\<open>urllib.parse.urlparse\<close>: \<^verbatim>\<open>hostname\<close> (which is
  \<^verbatim>\<open>None\<close> when the URL has no host), \<^verbatim>\<open>path\<close> and \<^verbatim>\<open>query\<close>.
\<close>

record parse_result =
  hostname :: "pystr option"
  path :: pystr
  query :: pystr

text \<open>\<^verbatim>\<open>xs[i]\<close> for \<open>i \<ge> 0\<close>: \<^verbatim>\<open>IndexError\<close> when out of range.\<close>

definition index :: "'a list \<Rightarrow> nat \<Rightarrow> exn + 'a" where
  "index xs i = (if i < length xs then Inr (xs ! i) else Inl IndexError)"

text \<open>
  The body of the \<^verbatim>\<open>try\<close> of \<^verbatim>\<open>get_video_id_from_url\<close>. \<^verbatim>\<open>urlparse\<close> and \<^verbatim>\<open>parse_qs\<close> belong to
  the standard library and are parameters; \<^verbatim>\<open>parse_qs\<close> returns a dictionary from names to
  lists of values. \<^verbatim>\<open>video_id\<close> is \<^verbatim>\<open>None\<close> or a string; \<^verbatim>\<open>if video_id:\<close> holds for a string
  that is not empty.
\<close>

definition get_video_id_body ::
  "(pystr \<Rightarrow> exn + parse_result) \<Rightarrow> (pystr \<Rightarrow> exn + (pystr \<rightharpoonup> pystr list)) \<Rightarrow> pystr
    \<Rightarrow> exn + pystr option" where
  "get_video_id_body urlparse parse_qs video_url =
     and_then (urlparse video_url) (\<lambda>parsed.
     and_then
       (if hostname parsed \<in> set [Some (ustr ''youtu.be'')]
        then Inr (Some (drop 1 (path parsed)))
        else if hostname parsed \<in> set [Some (ustr ''www.youtube.com''), Some (ustr ''youtube.com'')]
        then
          (if contains (path parsed) (ustr ''/watch'') then
             and_then (parse_qs (query parsed)) (\<lambda>qs.
               case qs (ustr ''v'') of
                 None \<Rightarrow> Inr None
               | Some vs \<Rightarrow> and_then (index vs 0) (\<lambda>v. Inr (Some v)))
           else if contains (path parsed) (ustr ''/embed/'') then
             and_then (index (split (path parsed) (ustr ''/embed/'')) 1) (\<lambda>a.
             and_then (index (split a (ustr ''?'')) 0) (\<lambda>b. Inr (Some b)))
           else if contains (path parsed) (ustr ''/v/'') then
             and_then (index (split (path parsed) (ustr ''/v/'')) 1) (\<lambda>a.
             and_then (index (split a (ustr ''?'')) 0) (\<lambda>b. Inr (Some b)))
           else Inr None)
        else Inr None)
       (\<lambda>video_id.
          case video_id of
            None \<Rightarrow> Inr None
          | Some v \<Rightarrow>
              if v \<noteq> [] then
                and_then (index (split v (ustr ''&'')) 0) (\<lambda>a.
                and_then (index (split a (ustr ''?'')) 0) (\<lambda>b. Inr (Some b)))
              else Inr (Some v)))"

text \<open>\<^verbatim>\<open>except Exception: return None\<close>.\<close>

definition get_video_id_from_url ::
  "(pystr \<Rightarrow> exn + parse_result) \<Rightarrow> (pystr \<Rightarrow> exn + (pystr \<rightharpoonup> pystr list)) \<Rightarrow> pystr
    \<Rightarrow> pystr option" where
  "get_video_id_from_url urlparse parse_qs video_url =
     (case get_video_id_body urlparse parse_qs video_url of
        Inr video_id \<Rightarrow> video_id
      | Inl e \<Rightarrow> None)"

section \<open>The network and the library\<close>

text \<open>
  The header sets of the requests: those of method 1 (a desktop browser with \<^verbatim>\<open>Accept\<close>
  headers), of method 2 (a mobile browser), of method 3 (\<^verbatim>\<open>YTInfoExtractor/1.0\<close>), of its
  fallback (\<^verbatim>\<open>curl/7.68.0\<close>) and of the tag extractor (a desktop browser).
\<close>

datatype headers = Method1Headers | Method2Headers | Method3Headers | SimpleHeaders | TagsHeaders

record request =
  req_url :: pystr
  req_headers :: headers
  req_timeout :: nat

text \<open>
  What the code reads of a response: \<^verbatim>\<open>status_code\<close>, \<^verbatim>\<open>text\<close> and \<^verbatim>\<open>json()\<close>. The JSON body is
  read only through \<^verbatim>\<open>data.get('title', ...)\<close>, so \<open>json\<close> is the dictionary of the string
  fields of the body, or the exception that \<^verbatim>\<open>json()\<close> or \<^verbatim>\<open>get\<close> raises when the body is no
  JSON object.
\<close>

record response =
  status_code :: nat
  text_body :: pystr
  json :: "exn + (pystr \<rightharpoonup> pystr)"

text \<open>\<^verbatim>\<open>response.raise_for_status()\<close>: \<^verbatim>\<open>HTTPError\<close> for the status codes 400 to 599.\<close>

definition raise_for_status :: "response \<Rightarrow> exn + unit" where
  "raise_for_status response =
     (if 400 \<le> status_code response \<and> status_code response < 600 then Inl HTTPError
      else Inr ())"

text \<open>
  The regular expressions of the three methods, by name. Their text in the source:
  \<^item> \<open>VideoDetailsTitle\<close>: \<^verbatim>\<open>"videoDetails":\s*{[^}]*?"title":"((?:[^"\\]|\\.)*)(?<!\\)"\<close>
  \<^item> \<open>TitleTagYouTube\<close>: \<^verbatim>\<open><title[^>]*>([^<]+?)\s*-\s*YouTube</title>\<close>
  \<^item> \<open>OgTitle\<close>: \<^verbatim>\<open><meta property="og:title" content="([^"]*)"\<close>
  \<^item> \<open>TitleBeforeLength\<close>: \<^verbatim>\<open>"title":"((?:[^"\\]|\\.)*?)(?<!\\)"[^}]*?"lengthSeconds"\<close>
  \<^item> \<open>VideoDetailsShortDescription\<close>:
    \<^verbatim>\<open>"videoDetails":\s*{[^}]*?"shortDescription":"((?:[^"\\]|\\.)*)(?<!\\)"\<close>
  \<^item> \<open>ShortDescription\<close>: \<^verbatim>\<open>"shortDescription":"((?:[^"\\]|\\.)*)(?<!\\)"\<close>
  \<^item> \<open>OgDescription\<close>: \<^verbatim>\<open><meta property="og:description" content="([^"]*)"\<close>
  \<^item> \<open>SimpleTextDescription\<close>: \<^verbatim>\<open>"description":\s*{"simpleText":"((?:[^"\\]|\\.)*)(?<!\\)"}\<close>
  \<^item> \<open>TitleTag\<close>: \<^verbatim>\<open><title[^>]*>([^<]+)</title>\<close>
  \<^item> \<open>JsonTitle\<close>: \<^verbatim>\<open>"title":"([^"]*)"\<close>
  \<^item> \<open>JsonDescription\<close>: \<^verbatim>\<open>"description":"([^"]*)"\<close>
  \<^item> \<open>MetaDescription\<close>: \<^verbatim>\<open><meta name="description" content="([^"]*)"\<close>
\<close>

datatype regex =
    VideoDetailsTitle | TitleTagYouTube | OgTitle | TitleBeforeLength
  | VideoDetailsShortDescription | ShortDescription | OgDescription | SimpleTextDescription
  | TitleTag | JsonTitle | JsonDescription | MetaDescription

text \<open>
  What the program takes from outside. \<open>net_get\<close> is \<^verbatim>\<open>requests.get\<close>: it raises or returns
  a response, and changes the state of the world. The others are functions of the
  standard library: \<open>lib_search p dotall s\<close> is \<^verbatim>\<open>re.search(p, s)\<close> (with \<^verbatim>\<open>re.DOTALL\<close> when
  \<open>dotall\<close>) followed by \<^verbatim>\<open>group(1)\<close>, and \<open>None\<close> when there is no match; \<open>lib_lower\<close> is
  \<^verbatim>\<open>str.lower\<close>; \<open>lib_getcode\<close> is the table of character names of the \<^verbatim>\<open>unicode_escape\<close>
  codec; \<open>lib_urlparse\<close> and \<open>lib_parse_qs\<close> are those of \<^verbatim>\<open>urllib.parse\<close>. The pauses
  (\<^verbatim>\<open>time.sleep(random.uniform(...))\<close>) change no result and are left out.
\<close>

record 'w env =
  net_get :: "request \<Rightarrow> 'w \<Rightarrow> (exn + response) \<times> 'w"
  lib_search :: "regex \<Rightarrow> bool \<Rightarrow> pystr \<Rightarrow> pystr option"
  lib_lower :: "pystr \<Rightarrow> pystr"
  lib_getcode :: "nat list \<Rightarrow> nat option"
  lib_urlparse :: "pystr \<Rightarrow> exn + parse_result"
  lib_parse_qs :: "pystr \<Rightarrow> exn + (pystr \<rightharpoonup> pystr list)"

section \<open>The tag extractor \<^verbatim>\<open>get_youtube_tags\<close>\<close>

text \<open>
  The pattern \<^verbatim>\<open>"KEY":\s*\[(.*?)\]\<close> at the start of a text: the key in double quotes, a
  colon, white space, an opening bracket, and then the shortest run of characters other
  than the line feed that is followed by a closing bracket. The result is that run.
\<close>

definition match_array :: "pystr \<Rightarrow> pystr \<Rightarrow> pystr option" where
  "match_array key s =
     (let start = [34] @ key @ [34, 58] in
      if startswith s start then
        (case dropWhile py_isspace (drop (length start) s) of
           [] \<Rightarrow> None
         | c # r \<Rightarrow>
             let inner = takeWhile (\<lambda>x. x \<noteq> 93) r in
             if c = 91 \<and> length inner < length r \<and> 10 \<notin> set inner then Some inner else None)
      else None)"

text \<open>\<^verbatim>\<open>re.search\<close> of that pattern: the match that starts leftmost.\<close>

fun search_array :: "pystr \<Rightarrow> pystr \<Rightarrow> pystr option" where
  "search_array key [] = match_array key []"
| "search_array key (c # cs) =
     (case match_array key (c # cs) of
        Some inner \<Rightarrow> Some inner
      | None \<Rightarrow> search_array key cs)"

text \<open>
  \<^verbatim>\<open>re.findall(r'"([^"]*)"', s)\<close>: the texts between the first and the second double quote,
  the third and the fourth, and so on.
\<close>

function findall_quoted :: "pystr \<Rightarrow> pystr list" where
  "findall_quoted s =
     (case dropWhile (\<lambda>x. x \<noteq> 34) s of
        [] \<Rightarrow> []
      | q # r \<Rightarrow>
          let inner = takeWhile (\<lambda>x. x \<noteq> 34) r in
          if length inner < length r then inner # findall_quoted (drop (Suc (length inner)) r)
          else [])"
  by pat_completeness auto
termination
proof (relation "measure length")
  show "wf (measure length)" by simp
next
  fix s :: pystr and q r inner
  assume "dropWhile (\<lambda>x. x \<noteq> 34) s = q # r"
  then have "length (q # r) \<le> length s"
    by (metis length_dropWhile_le)
  then show "(drop (Suc (length inner)) r, s) \<in> measure length" by simp
qed

declare findall_quoted.simps [simp del]

text \<open>The loop over the three patterns: \<^verbatim>\<open>all_tags.extend(tags)\<close> for each one that matches.\<close>

definition all_tags :: "pystr \<Rightarrow> pystr list" where
  "all_tags page =
     concat (map (\<lambda>key. case search_array key page of
                           None \<Rightarrow> []
                         | Some keywords_str \<Rightarrow> findall_quoted keywords_str)
                 [ustr ''keywords'', ustr ''tags'', ustr ''hashtags''])"

text \<open>
  The loop that removes duplicates, with its two variables \<^verbatim>\<open>seen\<close> and \<^verbatim>\<open>unique_tags\<close>:
  \<^verbatim>\<open>seen.add(tag)\<close> stores the tag as found, \<^verbatim>\<open>unique_tags.append(tag.strip())\<close> the
  stripped one.
\<close>

fun remove_duplicates :: "pystr list \<Rightarrow> pystr set \<Rightarrow> pystr list \<Rightarrow> pystr list" where
  "remove_duplicates [] seen unique_tags = unique_tags"
| "remove_duplicates (tag # tags) seen unique_tags =
     (if tag \<notin> seen \<and> length (strip tag) > 0
      then remove_duplicates tags (insert tag seen) (unique_tags @ [strip tag])
      else remove_duplicates tags seen unique_tags)"

text \<open>The function: any exception gives the empty list.\<close>

definition get_youtube_tags :: "'w env \<Rightarrow> pystr \<Rightarrow> 'w \<Rightarrow> pystr list \<times> 'w" where
  "get_youtube_tags E video_url w =
     (case net_get E \<lparr>req_url = video_url, req_headers = TagsHeaders, req_timeout = 10\<rparr> w of
        (Inl e, w') \<Rightarrow> ([], w')
      | (Inr response, w') \<Rightarrow>
          (case raise_for_status response of
             Inl e \<Rightarrow> ([], w')
           | Inr u \<Rightarrow> (take 20 (remove_duplicates (all_tags (text_body response)) {} []), w')))"

section \<open>The extraction strategies\<close>

text \<open>
  The loop over a list of patterns, shared by methods 1 and 2:
  \<^verbatim>\<open>for pattern in patterns: match = re.search(...); if match: value =
  clean_description(...); if len(value.strip()) > 0: break\<close>. \<open>current\<close> is the value of
  the variable before the loop goes on, \<open>prepare\<close> what is done to the matched text
  before it is normalized.
\<close>

fun first_match :: "'w env \<Rightarrow> bool \<Rightarrow> (pystr \<Rightarrow> pystr) \<Rightarrow> regex list \<Rightarrow> pystr \<Rightarrow> pystr \<Rightarrow> pystr" where
  "first_match E dotall prepare [] content current = current"
| "first_match E dotall prepare (pattern # patterns) content current =
     (case lib_search E pattern dotall content of
        None \<Rightarrow> first_match E dotall prepare patterns content current
      | Some group1 \<Rightarrow>
          let cleaned = clean_description (lib_getcode E) (prepare group1) in
          if length (strip cleaned) > 0 then cleaned
          else first_match E dotall prepare patterns content cleaned)"

text \<open>\<^verbatim>\<open>raw_title.replace(' - YouTube', '')\<close>.\<close>

definition without_suffix :: "pystr \<Rightarrow> pystr" where
  "without_suffix raw_title = replace raw_title (ustr '' - YouTube'') []"

definition get_youtube_info_method1 :: "'w env \<Rightarrow> pystr \<Rightarrow> 'w strategy" where
  "get_youtube_info_method1 E url w =
     (case net_get E \<lparr>req_url = url, req_headers = Method1Headers, req_timeout = 15\<rparr> w of
        (Inl e, w') \<Rightarrow> (Inl e, w')
      | (Inr response, w') \<Rightarrow>
          (and_then (raise_for_status response) (\<lambda>u.
             let content = text_body response in
             if contains (lib_lower E content) (ustr ''unusual traffic'') \<or> length content < 1000
             then Inl (Raised (ustr ''Request appears to be blocked''))
             else Inr \<lparr>title = first_match E True (\<lambda>g. g)
                                  [VideoDetailsTitle, TitleTagYouTube, OgTitle, TitleBeforeLength]
                                  content (ustr ''Title not found''),
                       description = first_match E True (\<lambda>g. g)
                                  [VideoDetailsShortDescription, ShortDescription, OgDescription,
                                   SimpleTextDescription]
                                  content (ustr ''Description not found'')\<rparr>),
           w'))"

definition get_youtube_info_method2 :: "'w env \<Rightarrow> pystr \<Rightarrow> 'w strategy" where
  "get_youtube_info_method2 E url w =
     (let mobile_url = replace url (ustr ''www.youtube.com'') (ustr ''m.youtube.com'') in
      case net_get E \<lparr>req_url = mobile_url, req_headers = Method2Headers, req_timeout = 15\<rparr> w of
        (Inl e, w') \<Rightarrow> (Inl e, w')
      | (Inr response, w') \<Rightarrow>
          (and_then (raise_for_status response) (\<lambda>u.
             let content = text_body response in
             Inr \<lparr>title = first_match E False without_suffix
                             [TitleTag, JsonTitle, OgTitle] content (ustr ''Title not found''),
                  description = first_match E False (\<lambda>g. g)
                             [OgDescription, JsonDescription, MetaDescription]
                             content (ustr ''Description not found'')\<rparr>),
           w'))"

text \<open>
  The end of method 3, after the \<^verbatim>\<open>try\<close> around the oEmbed request: a plain request; when
  it raises, the handler of the method returns the two sentinels.
\<close>

definition simple_extraction :: "'w env \<Rightarrow> pystr \<Rightarrow> 'w strategy" where
  "simple_extraction E url w =
     (case net_get E \<lparr>req_url = url, req_headers = SimpleHeaders, req_timeout = 15\<rparr> w of
        (Inl e, w') \<Rightarrow>
          (Inr \<lparr>title = ustr ''Title not found'', description = ustr ''Description not found''\<rparr>,
           w')
      | (Inr response, w') \<Rightarrow>
          (let content = text_body response in
           Inr \<lparr>title = (case lib_search E TitleTag False content of
                            None \<Rightarrow> ustr ''Title not found''
                          | Some g \<Rightarrow> clean_description (lib_getcode E) (without_suffix g)),
                description = (case lib_search E OgDescription False content of
                                  None \<Rightarrow> ustr ''Description not found''
                                | Some g \<Rightarrow> clean_description (lib_getcode E) g)\<rparr>,
           w'))"

text \<open>
  Method 3. \<^verbatim>\<open>if not video_id: raise\<close> ends in the handler of the method, which returns the
  two sentinels; so the method never raises. Inside the inner \<^verbatim>\<open>try\<close> every exception (of
  the oEmbed request, of \<^verbatim>\<open>json()\<close>, of the request for the main page) leads to the simple
  extraction, and so does a status other than 200. The title of the oEmbed answer is
  \<^verbatim>\<open>data.get('title', 'Title not found')\<close>.
\<close>

definition get_youtube_info_method3 :: "'w env \<Rightarrow> pystr \<Rightarrow> 'w strategy" where
  "get_youtube_info_method3 E url w =
     (let video_id = get_video_id_from_url (lib_urlparse E) (lib_parse_qs E) url in
      if video_id = None \<or> video_id = Some []
      then (Inr \<lparr>title = ustr ''Title not found'', description = ustr ''Description not found''\<rparr>,
            w)
      else
        let oembed_url = ustr ''https://www.youtube.com/oembed?url='' @ url @ ustr ''&format=json'' in
        case net_get E \<lparr>req_url = oembed_url, req_headers = Method3Headers, req_timeout = 10\<rparr> w of
          (Inl e, w1) \<Rightarrow> simple_extraction E url w1
        | (Inr response, w1) \<Rightarrow>
            if status_code response = 200 then
              (case json response of
                 Inl e \<Rightarrow> simple_extraction E url w1
               | Inr data \<Rightarrow>
                   (case net_get E \<lparr>req_url = url, req_headers = Method3Headers, req_timeout = 10\<rparr> w1 of
                      (Inl e, w2) \<Rightarrow> simple_extraction E url w2
                    | (Inr main_response, w2) \<Rightarrow>
                        (Inr \<lparr>title = (case data (ustr ''title'') of
                                         None \<Rightarrow> ustr ''Title not found''
                                       | Some t \<Rightarrow> t),
                              description =
                                (case lib_search E ShortDescription False (text_body main_response) of
                                   None \<Rightarrow> ustr ''Description not found''
                                 | Some g \<Rightarrow> clean_description (lib_getcode E) g)\<rparr>,
                         w2)))
            else simple_extraction E url w1)"

section \<open>The orchestrator \<^verbatim>\<open>get_youtube_info\<close>\<close>

text \<open>
  The inner loop of \<^verbatim>\<open>get_youtube_info\<close> (\<^verbatim>\<open>for j, method2 in enumerate(methods[i+1:], i+1)\<close>):
  a usable title has been found in \<open>result\<close>; the remaining methods are asked for a
  description only. The bare \<^verbatim>\<open>except: continue\<close> absorbs every failure; when the loop
  runs out, \<^verbatim>\<open>return result\<close>.
\<close>

fun keep_trying_for_description :: "info \<Rightarrow> 'w strategy list \<Rightarrow> 'w \<Rightarrow> info \<times> 'w" where
  "keep_trying_for_description result [] w = (result, w)"
| "keep_trying_for_description result (method2 # rest) w =
     (case method2 w of
        (Inl e, w') \<Rightarrow> keep_trying_for_description result rest w'
      | (Inr result2, w') \<Rightarrow>
          if description result2 \<notin> set [ustr ''Description not found'', ustr ''Error'']
          then (\<lparr>title = title result, description = description result2\<rparr>, w')
          else keep_trying_for_description result rest w')"

text \<open>
  The outer loop (\<^verbatim>\<open>for i, method in enumerate(methods)\<close>) with the return that follows it.
  \<^verbatim>\<open>except Exception: continue\<close> absorbs a failing strategy; a result with a sentinel title
  matches neither branch of the \<^verbatim>\<open>if\<close>/\<^verbatim>\<open>elif\<close> and the loop goes on.
\<close>

fun try_methods :: "'w strategy list \<Rightarrow> 'w \<Rightarrow> info \<times> 'w" where
  "try_methods [] w =
     (\<lparr>title = ustr ''All extraction methods failed'',
       description = ustr ''Could not extract video information''\<rparr>, w)"
| "try_methods (method1 # rest) w =
     (case method1 w of
        (Inl e, w') \<Rightarrow> try_methods rest w'
      | (Inr result, w') \<Rightarrow>
          if title result \<notin> set [ustr ''Title not found'', ustr ''Error''] \<and>
             description result \<notin> set [ustr ''Description not found'', ustr ''Error'']
          then (result, w')
          else if title result \<notin> set [ustr ''Title not found'', ustr ''Error'']
          then keep_trying_for_description result rest w'
          else try_methods rest w')"

text \<open>
  \<^verbatim>\<open>get_youtube_info\<close>: the three methods, in this order, given to the loop. No exception
  leaves the loop, so the outer handler of the function is never entered.
\<close>

definition get_youtube_info :: "'w env \<Rightarrow> pystr \<Rightarrow> 'w \<Rightarrow> info \<times> 'w" where
  "get_youtube_info E url w =
     try_methods
       [get_youtube_info_method1 E url, get_youtube_info_method2 E url,
        get_youtube_info_method3 E url] w"

section \<open>Vocabulary of the normalizer's properties\<close>

text \<open>
  A text is stripped when \<^verbatim>\<open>strip\<close> has nothing to remove at either end; the lines of a
  text are the pieces between its line feeds; a long run is three or more line feeds in
  a row.
\<close>

definition stripped :: "pystr \<Rightarrow> bool" where
  "stripped l \<longleftrightarrow> l = [] \<or> (\<not> py_isspace (hd l) \<and> \<not> py_isspace (last l))"

definition lines_stripped :: "pystr \<Rightarrow> bool" where
  "lines_stripped t \<longleftrightarrow> (\<forall>l\<in>set (split t [10]). stripped l)"

fun no_long_run :: "pystr \<Rightarrow> bool" where
  "no_long_run [] = True"
| "no_long_run (c # cs) = (length (takeWhile (\<lambda>x. x = 10) (c # cs)) < 3 \<and> no_long_run cs)"

text \<open>
  ASCII text with nothing for the normalizer to decode or to cut: every character is
  ASCII, there is no backslash and so no escape sequence, and there are at most 2000
  characters. Its white space need not be tidy.
\<close>

definition clean_ascii :: "pystr \<Rightarrow> bool" where
  "clean_ascii s \<longleftrightarrow> (\<forall>c\<in>set s. c < 128) \<and> 92 \<notin> set s \<and> length s \<le> 2000"


section \<open>The standard library on plain URLs\<close>

text \<open>
  For the closed instances below, \<^verbatim>\<open>urlparse\<close> and \<^verbatim>\<open>parse_qs\<close> on plain URLs: ASCII text
  without control characters, brackets in the host, \<^verbatim>\<open>;\<close> in the path, and without
  \<^verbatim>\<open>%\<close> or \<^verbatim>\<open>+\<close> in the query. On these the library does what follows: the scheme ends at
  the first colon; after \<^verbatim>\<open>//\<close> the network location runs to the first of \<^verbatim>\<open>/ ? #\<close>; the
  fragment starts at the first \<^verbatim>\<open>#\<close> and the query at the first \<^verbatim>\<open>?\<close>; the host name is the
  network location after the last \<^verbatim>\<open>@\<close> and before the first colon, in lower case. The
  query is cut at every \<^verbatim>\<open>&\<close>, each piece at its first \<^verbatim>\<open>=\<close>, and pieces with an empty
  value are dropped.
\<close>

definition scheme_char :: "nat \<Rightarrow> bool" where
  "scheme_char c \<longleftrightarrow> (97 \<le> c \<and> c \<le> 122) \<or> (65 \<le> c \<and> c \<le> 90) \<or> (48 \<le> c \<and> c \<le> 57) \<or>
     c = 43 \<or> c = 45 \<or> c = 46"

definition ascii_lower :: "nat \<Rightarrow> nat" where
  "ascii_lower c = (if 65 \<le> c \<and> c \<le> 90 then c + 32 else c)"

definition ascii_alpha :: "nat \<Rightarrow> bool" where
  "ascii_alpha c \<longleftrightarrow> (97 \<le> c \<and> c \<le> 122) \<or> (65 \<le> c \<and> c \<le> 90)"

definition plain_urlparse :: "pystr \<Rightarrow> exn + parse_result" where
  "plain_urlparse url =
     (let i = length (takeWhile (\<lambda>c. c \<noteq> 58) url);
          rest = (if 0 < i \<and> i < length url \<and> ascii_alpha (hd url) \<and>
                     (\<forall>c\<in>set (take i url). scheme_char c)
                  then drop (Suc i) url else url);
          delim = (\<lambda>c. c = 47 \<or> c = 63 \<or> c = 35);
          netloc = (if startswith rest (ustr ''//'')
                    then takeWhile (\<lambda>c. \<not> delim c) (drop 2 rest) else []);
          rest2 = (if startswith rest (ustr ''//'')
                   then dropWhile (\<lambda>c. \<not> delim c) (drop 2 rest) else rest);
          rest3 = takeWhile (\<lambda>c. c \<noteq> 35) rest2;
          host = takeWhile (\<lambda>c. c \<noteq> 58) (last (split netloc (ustr ''@'')))
      in Inr \<lparr>hostname = (if host = [] then None else Some (map ascii_lower host)),
              path = takeWhile (\<lambda>c. c \<noteq> 63) rest3,
              query = drop 1 (dropWhile (\<lambda>c. c \<noteq> 63) rest3)\<rparr>)"

fun add_pairs :: "pystr list \<Rightarrow> (pystr \<rightharpoonup> pystr list) \<Rightarrow> (pystr \<rightharpoonup> pystr list)" where
  "add_pairs [] m = m"
| "add_pairs (piece # pieces) m =
     (let name = takeWhile (\<lambda>c. c \<noteq> 61) piece;
          val = drop 1 (dropWhile (\<lambda>c. c \<noteq> 61) piece)
      in add_pairs pieces
           (if val = [] then m
            else m(name \<mapsto> (case m name of None \<Rightarrow> [] | Some vs \<Rightarrow> vs) @ [val])))"

definition plain_parse_qs :: "pystr \<Rightarrow> exn + (pystr \<rightharpoonup> pystr list)" where
  "plain_parse_qs qs = Inr (add_pairs (split qs (ustr ''&'')) Map.empty)"


section \<open>Vocabulary of the identifier parser's properties\<close>

text \<open>The text before the first \<^verbatim>\<open>&\<close> or \<^verbatim>\<open>?\<close>: what is left when everything from a
  literal \<^verbatim>\<open>&\<close> or \<^verbatim>\<open>?\<close> on is cut off.\<close>

definition before_separators :: "pystr \<Rightarrow> pystr" where
  "before_separators v = takeWhile (\<lambda>c. c \<noteq> 38 \<and> c \<noteq> 63) v"


section \<open>Vocabulary of the orchestrator's properties\<close>

text \<open>
  A strategy is passed over by the outer loop when its invocation raises or when the title
  it returns is a sentinel. \<open>passed_over ms w\<close> runs the strategies \<open>ms\<close> in order from the
  state \<open>w\<close> and gives the state reached when every one of them is passed over.
\<close>

fun passed_over :: "'w strategy list \<Rightarrow> 'w \<Rightarrow> 'w option" where
  "passed_over [] w = Some w"
| "passed_over (m # ms) w =
     (case m w of
        (Inl e, w') \<Rightarrow> passed_over ms w'
      | (Inr r, w') \<Rightarrow>
          if title r \<in> set [ustr ''Title not found'', ustr ''Error'']
          then passed_over ms w' else None)"


text \<open>
  Test doubles for the closed instances below: the state is the log of the strategies
  invoked so far, and \<open>stub k out\<close> is a strategy that records its number \<open>k\<close> in the log
  and has the outcome \<open>out\<close>.
\<close>

definition stub :: "nat \<Rightarrow> exn + info \<Rightarrow> nat list strategy" where
  "stub k out = (\<lambda>log. (out, log @ [k]))"

section \<open>Vocabulary of the properties of the strategies and the tag extractor\<close>

text \<open>
  The values the loop over the patterns can take from a page: for each pattern that
  matches, the normalizer applied to the prepared text of the match.
\<close>

fun candidates :: "'w env \<Rightarrow> bool \<Rightarrow> (pystr \<Rightarrow> pystr) \<Rightarrow> regex list \<Rightarrow> pystr \<Rightarrow> pystr list" where
  "candidates E dotall prepare [] content = []"
| "candidates E dotall prepare (pattern # patterns) content =
     (case lib_search E pattern dotall content of
        None \<Rightarrow> candidates E dotall prepare patterns content
      | Some g \<Rightarrow>
          clean_description (lib_getcode E) (prepare g) #
          candidates E dotall prepare patterns content)"

text \<open>A list without its repetitions: each element where it occurs first.\<close>

fun first_occurrences :: "'a list \<Rightarrow> 'a list" where
  "first_occurrences [] = []"
| "first_occurrences (x # xs) = x # filter (\<lambda>y. y \<noteq> x) (first_occurrences xs)"

text \<open>
  Test doubles for the closed instances below: a pattern matcher that never matches, one
  that matches a single pattern with a given text, and a world in which every request is
  answered by the same response and the state is the log of the requests made.
\<close>

definition no_match :: "regex \<Rightarrow> bool \<Rightarrow> pystr \<Rightarrow> pystr option" where
  "no_match p dotall s = None"

definition only_match :: "regex \<Rightarrow> pystr \<Rightarrow> regex \<Rightarrow> bool \<Rightarrow> pystr \<Rightarrow> pystr option" where
  "only_match q g p dotall s = (if p = q then Some g else None)"

definition serving :: "response \<Rightarrow> (regex \<Rightarrow> bool \<Rightarrow> pystr \<Rightarrow> pystr option) \<Rightarrow> request list env" where
  "serving response search =
     \<lparr>net_get = (\<lambda>request log. (Inr response, log @ [request])),
      lib_search = search,
      lib_lower = map ascii_lower,
      lib_getcode = (\<lambda>name. None),
      lib_urlparse = plain_urlparse,
      lib_parse_qs = plain_parse_qs\<rparr>"

section \<open>Properties of the normalizer\<close>

lemma and_then_Inr_iff:
  "and_then x f = Inr y \<longleftrightarrow> (\<exists>v. x = Inr v \<and> f v = Inr y)"
  by (cases x) auto

lemma and_then_Inl_iff:
  "and_then x f = Inl e \<longleftrightarrow> x = Inl e \<or> (\<exists>v. x = Inr v \<and> f v = Inl e)"
  by (cases x) auto

lemma encode_utf8_Inl: "encode_utf8 h s = Inl e \<Longrightarrow> e = UnicodeEncodeError \<and> h = Strict"
  by (induction s) (auto simp: and_then_Inl_iff split: if_splits errors.splits)

lemma encode_utf8_Ignore: "\<exists>bs. encode_utf8 Ignore s = Inr bs"
  by (induction s) auto

lemma encode_utf8_Replace: "\<exists>bs. encode_utf8 Replace s = Inr bs"
  by (induction s) auto

lemma decode_utf8_Inl: "decode_utf8 bs = Inl e \<Longrightarrow> e = UnicodeDecodeError"
  by (induction bs rule: decode_utf8.induct)
     (auto simp: and_then_Inl_iff split: option.splits prod.splits)

lemma unicode_escape_decode_Inl:
  "unicode_escape_decode g bs = Inl e \<Longrightarrow> e = UnicodeDecodeError"
proof (induction g bs arbitrary: e rule: unicode_escape_decode.induct)
  case (1 g)
  then show ?case by simp
next
  case (2 g b s)
  show ?case
  proof (cases "b \<noteq> 92")
    case True
    with "2.prems" have "unicode_escape_decode g s = Inl e"
      by (simp add: and_then_Inl_iff)
    with "2.IH"(1) True show ?thesis by blast
  next
    case False
    show ?thesis
    proof (cases s)
      case Nil
      with False "2.prems" show ?thesis by simp
    next
      case (Cons c t)
      show ?thesis
      proof (cases "escape_step g c t")
        case None
        with False Cons "2.prems" show ?thesis by simp
      next
        case (Some p)
        obtain out n where p: "p = (out, n)" by (cases p)
        with False Cons Some "2.prems" have "unicode_escape_decode g (drop n t) = Inl e"
          by (simp add: and_then_Inl_iff)
        with "2.IH"(2) [OF _ Cons Some p [symmetric]] False show ?thesis by blast
      qed
    qed
  qed
qed

lemma codecs_decode_unicode_escape_Inl:
  "codecs_decode_unicode_escape g s = Inl e \<Longrightarrow> e = UnicodeDecodeError \<or> e = UnicodeEncodeError"
  by (auto simp: codecs_decode_unicode_escape_def and_then_Inl_iff
      dest: encode_utf8_Inl unicode_escape_decode_Inl)

lemma try_unicode_escape_Inr:
  "\<exists>d. try_except (codecs_decode_unicode_escape g s)
          [UnicodeDecodeError, UnicodeEncodeError] (Inr s) = Inr d"
  by (cases "codecs_decode_unicode_escape g s")
     (auto dest: codecs_decode_unicode_escape_Inl)

lemma encode_latin1_Inl: "encode_latin1 s = Inl e \<Longrightarrow> e = UnicodeEncodeError"
  by (auto simp: encode_latin1_def split: if_splits)

lemma fix_garbled_Inr: "\<exists>d'. fix_garbled d = Inr d'"
proof -
  have inner: "\<exists>d'. try_except (and_then (encode_utf8 Ignore d) decode_utf8)
          [UnicodeDecodeError, UnicodeEncodeError] (Inr (filter (\<lambda>c. c < 128) d)) = Inr d'"
    by (cases "and_then (encode_utf8 Ignore d) decode_utf8")
       (auto simp: and_then_Inl_iff dest: encode_utf8_Inl decode_utf8_Inl)
  let ?body = "if contains d [0xF0] \<or> (\<exists>c\<in>set d. c > 255)
        then and_then (encode_latin1 d) decode_utf8 else Inr d"
  show ?thesis
  proof (cases ?body)
    case (Inl e)
    then have "e = UnicodeDecodeError \<or> e = UnicodeEncodeError"
      by (auto simp: and_then_Inl_iff split: if_splits
          dest: encode_latin1_Inl decode_utf8_Inl)
    with Inl inner show ?thesis unfolding fix_garbled_def by auto
  next
    case (Inr v)
    then show ?thesis unfolding fix_garbled_def by auto
  qed
qed

lemma utf8_step_ascii: "c < 0x80 \<Longrightarrow> utf8_step c bs = Some (c, 0)"
  by (simp add: utf8_step_def)

lemma utf8_step_two:
  assumes "0x80 \<le> c" "c < 0x800"
  shows "utf8_step (0xC0 + c div 64) ((0x80 + c mod 64) # bs) = Some (c, 1)"
proof -
  have a: "2 \<le> c div 64" "c div 64 \<le> 31" using assms by arith+
  have b: "c mod 64 < 64" by simp
  have c: "c div 64 * 64 + c mod 64 = c" by simp
  show ?thesis using a b c by (simp add: utf8_step_def continuation_def)
qed

lemma base64_digits:
  fixes c :: nat
  obtains f d b a where "c = 262144 * f + 4096 * d + 64 * b + a" "a < 64" "b < 64" "d < 64"
    "c mod 64 = a" "c div 64 mod 64 = b" "c div 4096 mod 64 = d" "c div 262144 = f"
    "c div 4096 = 64 * f + d"
proof -
  define a where "a = c mod 64"
  define e where "e = c div 64"
  define b where "b = e mod 64"
  define e2 where "e2 = e div 64"
  define d where "d = e2 mod 64"
  define f where "f = e2 div 64"
  have c: "c = 64 * e + a" unfolding a_def e_def by simp
  have e: "e = 64 * e2 + b" unfolding b_def e2_def by simp
  have e2: "e2 = 64 * f + d" unfolding d_def f_def by simp
  have q1: "c div 4096 = e2" unfolding e2_def e_def by (simp add: div_mult2_eq [symmetric])
  have q2: "c div 262144 = f" unfolding f_def e2_def e_def by (simp add: div_mult2_eq [symmetric])
  have "c = 262144 * f + 4096 * d + 64 * b + a" using c e e2 by simp
  moreover have "a < 64" "b < 64" "d < 64" unfolding a_def b_def d_def by simp_all
  moreover have "c mod 64 = a" "c div 64 mod 64 = b" unfolding a_def b_def e_def by simp_all
  moreover have "c div 4096 mod 64 = d" unfolding q1 d_def by simp
  moreover note q2
  moreover have "c div 4096 = 64 * f + d" using q1 e2 by simp
  ultimately show thesis by (rule that)
qed

lemma utf8_step_three:
  assumes "0x800 \<le> c" "c < 0x10000" "encodable c"
  shows "utf8_step (0xE0 + c div 4096) ((0x80 + c div 64 mod 64) # (0x80 + c mod 64) # bs)
         = Some (c, 2)"
proof -
  obtain f d b a where dg: "c = 262144 * f + 4096 * d + 64 * b + a" "a < 64" "b < 64" "d < 64"
    and q: "c mod 64 = a" "c div 64 mod 64 = b" "c div 4096 = 64 * f + d"
    by (rule base64_digits [of c])
  have f: "f = 0" using dg assms(2) by linarith
  have d15: "d \<le> 15" using dg assms(2) by linarith
  have lo: "d = 0 \<Longrightarrow> 32 \<le> b" using dg f assms(1) by linarith
  have hi: "d = 13 \<Longrightarrow> b \<le> 31" using dg f assms(3) unfolding encodable_def by linarith
  have val: "d * 4096 + b * 64 + a = c" using dg f by linarith
  show ?thesis unfolding q f
    using d15 lo hi val dg(2,3) by (simp add: utf8_step_def continuation_def)
qed

lemma utf8_step_four:
  assumes "0x10000 \<le> c" "encodable c"
  shows "utf8_step (0xF0 + c div 262144)
           ((0x80 + c div 4096 mod 64) # (0x80 + c div 64 mod 64) # (0x80 + c mod 64) # bs)
         = Some (c, 3)"
proof -
  obtain f d b a where dg: "c = 262144 * f + 4096 * d + 64 * b + a" "a < 64" "b < 64" "d < 64"
    and q: "c mod 64 = a" "c div 64 mod 64 = b" "c div 4096 mod 64 = d" "c div 262144 = f"
    by (rule base64_digits [of c])
  have lt: "c < 0x110000" using assms unfolding encodable_def by linarith
  have f4: "f \<le> 4" using dg lt by linarith
  have lo: "f = 0 \<Longrightarrow> 16 \<le> d" using dg assms(1) by linarith
  have hi: "f = 4 \<Longrightarrow> d \<le> 15" using dg lt by linarith
  have val: "f * 262144 + d * 4096 + b * 64 + a = c" using dg by linarith
  show ?thesis unfolding q
    using f4 lo hi val dg(2,3,4) by (simp add: utf8_step_def continuation_def)
qed

lemma decode_utf8_bytes:
  assumes "encodable c"
  shows "decode_utf8 (utf8_bytes c @ bs) = and_then (decode_utf8 bs) (\<lambda>cs. Inr (c # cs))"
proof -
  consider "c < 0x80" | "0x80 \<le> c" "c < 0x800" | "0x800 \<le> c" "c < 0x10000" | "0x10000 \<le> c"
    by linarith
  then show ?thesis
  proof cases
    case 1
    then show ?thesis by (simp add: utf8_bytes_def utf8_step_ascii)
  next
    case 2
    then show ?thesis by (simp add: utf8_bytes_def utf8_step_two)
  next
    case 3
    with assms show ?thesis by (simp add: utf8_bytes_def utf8_step_three)
  next
    case 4
    with assms show ?thesis by (simp add: utf8_bytes_def utf8_step_four)
  qed
qed

lemma decode_utf8_question: "decode_utf8 (63 # bs) = and_then (decode_utf8 bs) (\<lambda>cs. Inr (63 # cs))"
  by (simp add: utf8_step_def)

lemma decode_encode_utf8:
  "encode_utf8 h s = Inr bs \<Longrightarrow> \<exists>d. decode_utf8 bs = Inr d \<and> length d \<le> length s"
proof (induction s arbitrary: bs)
  case Nil
  then show ?case by simp
next
  case (Cons c cs)
  show ?case
  proof (cases "encodable c")
    case True
    with Cons.prems obtain bs' where bs': "encode_utf8 h cs = Inr bs'" "bs = utf8_bytes c @ bs'"
      by (auto simp: and_then_Inr_iff)
    from Cons.IH [OF bs'(1)] obtain d where "decode_utf8 bs' = Inr d" "length d \<le> length cs"
      by blast
    with bs'(2) True show ?thesis by (simp add: decode_utf8_bytes)
  next
    case False
    show ?thesis
    proof (cases h)
      case Strict
      with False Cons.prems show ?thesis by simp
    next
      case Ignore
      with False Cons.prems have "encode_utf8 h cs = Inr bs" by simp
      from Cons.IH [OF this] show ?thesis by auto
    next
      case Replace
      with False Cons.prems obtain bs' where bs': "encode_utf8 h cs = Inr bs'" "bs = 63 # bs'"
        by (auto simp: and_then_Inr_iff)
      from Cons.IH [OF bs'(1)] obtain d where "decode_utf8 bs' = Inr d" "length d \<le> length cs"
        by blast
      with bs'(2) show ?thesis by (simp add: decode_utf8_question del: decode_utf8.simps)
    qed
  qed
qed

lemma ensure_utf8_Inr: "\<exists>d'. ensure_utf8 d = Inr d'"
proof -
  obtain bs where bs: "encode_utf8 Replace d = Inr bs"
    using encode_utf8_Replace by blast
  from decode_encode_utf8 [OF bs] obtain d2 where d2: "decode_utf8 bs = Inr d2" by blast
  show ?thesis
  proof (cases "and_then (encode_utf8 Strict d) decode_utf8")
    case (Inl e)
    then have "e = UnicodeDecodeError \<or> e = UnicodeEncodeError"
      by (auto simp: and_then_Inl_iff dest: encode_utf8_Inl decode_utf8_Inl)
    with Inl bs d2 show ?thesis unfolding ensure_utf8_def by auto
  next
    case (Inr v)
    then show ?thesis unfolding ensure_utf8_def by simp
  qed
qed

lemma length_rstrip_le: "length (rstrip s) \<le> length s"
  unfolding rstrip_def using length_dropWhile_le [of py_isspace "rev s"] by simp

lemma length_strip_le: "length (strip s) \<le> length s"
  unfolding strip_def lstrip_def
  using length_rstrip_le [of "dropWhile py_isspace s"] length_dropWhile_le [of py_isspace s]
  by linarith

lemma length_trim_long: "length (trim_long d) \<le> 2003"
  by (simp add: trim_long_def ustr_def)

lemma clean_description_body_Inr:
  "\<exists>d3. clean_description_body g raw = Inr (strip (trim_long d3))"
proof -
  obtain d1 where d1: "try_except (codecs_decode_unicode_escape g raw)
          [UnicodeDecodeError, UnicodeEncodeError] (Inr raw) = Inr d1"
    using try_unicode_escape_Inr by blast
  obtain d2 where d2: "fix_garbled (replace_escapes d1) = Inr d2"
    using fix_garbled_Inr by blast
  obtain d3 where d3: "ensure_utf8 (sub_newlines (clean_lines d2)) = Inr d3"
    using ensure_utf8_Inr by blast
  from d1 d2 d3 show ?thesis unfolding clean_description_body_def by auto
qed

text \<open>
  C6. For every input text, whatever the table of character names, no exception leaves
  the body of the outer \<^verbatim>\<open>try\<close> of the normalizer: the inner handlers absorb every error of
  the decoding and repair steps, the result is the value the body returns, and it has at
  most 2003 characters (2000 and the three dots).
\<close>

theorem clean_description_bounded:
  "(\<exists>d. clean_description_body getcode raw = Inr d \<and> clean_description getcode raw = d)
   \<and> length (clean_description getcode raw) \<le> 2003"
proof -
  obtain d3 where d3: "clean_description_body getcode raw = Inr (strip (trim_long d3))"
    using clean_description_body_Inr by blast
  have "length (strip (trim_long d3)) \<le> 2003"
    using length_strip_le [of "trim_long d3"] length_trim_long [of d3] by linarith
  with d3 show ?thesis by (simp add: clean_description_def)
qed

section \<open>Idempotence of the normalizer\<close>

subsection \<open>strip\<close>

lemma stripped_strip_id: "stripped l \<Longrightarrow> strip l = l"
proof (cases l)
  case Nil
  then show ?thesis by (simp add: strip_def lstrip_def rstrip_def)
next
  case (Cons a as)
  assume "stripped l"
  with Cons have h: "\<not> py_isspace (hd l)" and t: "\<not> py_isspace (last l)"
    by (auto simp: stripped_def)
  from h Cons have "lstrip l = l" by (simp add: lstrip_def)
  moreover have "dropWhile py_isspace (rev l) = rev l"
  proof -
    from Cons have "l \<noteq> []" by simp
    with t have "\<not> py_isspace (hd (rev l))" by (simp add: hd_rev)
    then show ?thesis by (cases "rev l") simp_all
  qed
  ultimately show ?thesis by (simp add: strip_def rstrip_def)
qed

lemma dropWhile_hd: "dropWhile P xs \<noteq> [] \<Longrightarrow> \<not> P (hd (dropWhile P xs))"
  by (metis hd_dropWhile)

lemma dropWhile_last: "dropWhile P xs \<noteq> [] \<Longrightarrow> last (dropWhile P xs) = last xs"
  by (induction xs) (auto split: if_splits)

lemma stripped_strip: "stripped (strip l)"
proof -
  define m where "m = dropWhile py_isspace l"
  define r where "r = dropWhile py_isspace (rev m)"
  have s: "strip l = rev r" by (simp add: strip_def lstrip_def rstrip_def m_def r_def)
  show ?thesis
  proof (cases "r = []")
    case True
    with s show ?thesis by (simp add: stripped_def)
  next
    case False
    then have hr: "\<not> py_isspace (hd r)" unfolding r_def by (rule dropWhile_hd)
    from False have m: "m \<noteq> []" unfolding r_def by auto
    from False have "last r = last (rev m)" unfolding r_def by (rule dropWhile_last)
    with m have "last r = hd m" by (simp add: last_rev)
    moreover from m have "\<not> py_isspace (hd m)" unfolding m_def by (rule dropWhile_hd)
    ultimately have lr: "\<not> py_isspace (last r)" by simp
    from False hr lr s show ?thesis by (simp add: stripped_def hd_rev last_rev)
  qed
qed

lemma set_strip: "set (strip l) \<subseteq> set l"
proof -
  have "set (strip l) \<subseteq> set (dropWhile py_isspace l)"
    unfolding strip_def lstrip_def rstrip_def
    using set_dropWhileD [of _ py_isspace "rev (dropWhile py_isspace l)"] by auto
  also have "\<dots> \<subseteq> set l" using set_dropWhileD [of _ py_isspace l] by auto
  finally show ?thesis .
qed



subsection \<open>split and join at line feeds\<close>

lemma split_not_Nil: "split s sep \<noteq> []"
  by (induction s sep rule: split.induct) (auto split: list.splits)

lemma split_nl_Cons:
  "split (c # cs) [10] =
     (if c = 10 then [] # split cs [10]
      else (c # hd (split cs [10])) # tl (split cs [10]))"
  using split_not_Nil [of cs "[10]"]
  by (cases "split cs [10]") (auto simp: startswith_def)

declare split.simps(2) [simp del]


lemma join_split: "join [10] (split s [10]) = s"
proof (induction s)
  case Nil
  then show ?case by simp
next
  case (Cons c cs)
  obtain p ps where sp: "split cs [10] = p # ps"
    using split_not_Nil [of cs "[10]"] by (cases "split cs [10]") auto
  show ?case
  proof (cases "c = 10")
    case True
    with Cons sp show ?thesis by (simp add: split_nl_Cons)
  next
    case False
    with Cons sp show ?thesis by (cases ps) (simp_all add: split_nl_Cons)
  qed
qed

lemma split_no_nl: "10 \<notin> set p \<Longrightarrow> split p [10] = [p]"
  by (induction p) (auto simp: split_nl_Cons)




lemma split_lines_subset: "l \<in> set (split s [10]) \<Longrightarrow> set l \<subseteq> set s"
proof (induction s arbitrary: l)
  case Nil
  then show ?case by simp
next
  case (Cons c cs)
  obtain p ps where sp: "split cs [10] = p # ps"
    using split_not_Nil [of cs "[10]"] by (cases "split cs [10]") auto
  with Cons.IH have "set p \<subseteq> set cs" "\<forall>l\<in>set ps. set l \<subseteq> set cs" by auto
  with Cons.prems sp show ?case by (auto simp: split_nl_Cons split: if_splits)
qed

lemma set_join: "set (join sep ls) \<subseteq> set sep \<union> \<Union> (set ` set ls)"
  by (induction sep ls rule: join.induct) auto

lemma length_join_map:
  "(\<And>l. length (f l) \<le> length l) \<Longrightarrow> length (join sep (map f ls)) \<le> length (join sep ls)"
proof (induction sep ls rule: join.induct)
  case (1 sep)
  then show ?case by simp
next
  case (2 sep p)
  then show ?case by simp
next
  case (3 sep p q ps)
  from 3 have "length (join sep (map f (q # ps))) \<le> length (join sep (q # ps))" by simp
  moreover from 3 have "length (f p) \<le> length p" by simp
  ultimately show ?case by simp
qed

subsection \<open>clean_lines\<close>



lemma clean_lines_id: "lines_stripped t \<Longrightarrow> clean_lines t = t"
proof -
  assume "lines_stripped t"
  then have "map strip (split t [10]) = split t [10]"
    by (intro map_idI) (simp add: lines_stripped_def stripped_strip_id)
  then show ?thesis by (simp add: clean_lines_def join_split)
qed

lemma length_clean_lines: "length (clean_lines s) \<le> length s"
proof -
  have "length (join [10] (map strip (split s [10]))) \<le> length (join [10] (split s [10]))"
    by (rule length_join_map) (rule length_strip_le)
  then show ?thesis by (simp add: clean_lines_def join_split)
qed

lemma set_clean_lines: "set (clean_lines s) \<subseteq> insert 10 (set s)"
proof -
  have "\<Union> (set ` set (map strip (split s [10]))) \<subseteq> set s"
    using split_lines_subset [of _ s] set_strip by fastforce
  with set_join [of "[10]" "map strip (split s [10])"] show ?thesis
    unfolding clean_lines_def by auto
qed

subsection \<open>sub_newlines\<close>

lemma set_dropWhile_subset: "set (dropWhile P xs) \<subseteq> set xs"
  by (auto dest: set_dropWhileD)

lemma set_sub_newlines: "set (sub_newlines s) \<subseteq> insert 10 (set s)"
proof (induction s rule: sub_newlines.induct)
  case 1
  then show ?case by simp
next
  case (2 c cs)
  show ?case
  proof (cases "3 \<le> length (takeWhile (\<lambda>x. x = 10) (c # cs))")
    case True
    with 2 have "set (sub_newlines (dropWhile (\<lambda>x. x = 10) (c # cs)))
        \<subseteq> insert 10 (set (dropWhile (\<lambda>x. x = 10) (c # cs)))" by simp
    also have "\<dots> \<subseteq> insert 10 (set (c # cs))"
      using set_dropWhile_subset [of "\<lambda>x. x = 10" "c # cs"] by blast
    finally have "set (sub_newlines (dropWhile (\<lambda>x. x = 10) (c # cs)))
        \<subseteq> insert 10 (set (c # cs))" .
    moreover from True have "sub_newlines (c # cs) =
        [10, 10] @ sub_newlines (dropWhile (\<lambda>x. x = 10) (c # cs))" by simp
    ultimately show ?thesis by (simp del: sub_newlines.simps dropWhile.simps)
  next
    case False
    with 2 show ?thesis by auto
  qed
qed

lemma length_sub_newlines: "length (sub_newlines s) \<le> length s"
proof (induction s rule: sub_newlines.induct)
  case 1
  then show ?case by simp
next
  case (2 c cs)
  show ?case
  proof (cases "3 \<le> length (takeWhile (\<lambda>x. x = 10) (c # cs))")
    case True
    with 2 have "length (sub_newlines (dropWhile (\<lambda>x. x = 10) (c # cs)))
        \<le> length (dropWhile (\<lambda>x. x = 10) (c # cs))" by simp
    moreover have "length (takeWhile (\<lambda>x. x = 10) (c # cs)) +
        length (dropWhile (\<lambda>x. x = 10) (c # cs)) = length (c # cs)"
      by (metis length_append takeWhile_dropWhile_id)
    ultimately have "2 + length (sub_newlines (dropWhile (\<lambda>x. x = 10) (c # cs))) \<le> length (c # cs)"
      using True by linarith
    with True show ?thesis by simp
  next
    case False
    with 2 show ?thesis by simp
  qed
qed

lemma sub_newlines_id: "no_long_run t \<Longrightarrow> sub_newlines t = t"
  by (induction t) (simp_all del: takeWhile.simps)







subsection \<open>Lines after sub_newlines and strip\<close>













subsection \<open>The whitespace steps are idempotent\<close>


subsection \<open>The normalizer on ASCII text without backslash\<close>

lemma encode_utf8_ascii: "\<forall>c\<in>set s. c < 128 \<Longrightarrow> encode_utf8 h s = Inr s"
  by (induction s) (simp_all add: encodable_def utf8_bytes_def)

lemma decode_utf8_ascii: "\<forall>c\<in>set s. c < 128 \<Longrightarrow> decode_utf8 s = Inr s"
  by (induction s) (simp_all add: utf8_step_ascii)

lemma unicode_escape_decode_plain: "92 \<notin> set s \<Longrightarrow> unicode_escape_decode g s = Inr s"
  by (induction s) simp_all

lemma startswith_hd: "old \<noteq> [] \<Longrightarrow> startswith s old \<Longrightarrow> hd old \<in> set s"
  unfolding startswith_def
  by (metis hd_in_set in_set_takeD)

lemma replace_absent: "old \<noteq> [] \<Longrightarrow> hd old \<notin> set s \<Longrightarrow> replace s old new = s"
proof (induction s)
  case Nil
  then show ?case by simp
next
  case (Cons c cs)
  from Cons.prems have "\<not> startswith (c # cs) old" using startswith_hd by blast
  with Cons show ?case by simp
qed

lemma replace_escapes_plain: "92 \<notin> set s \<Longrightarrow> replace_escapes s = s"
  by (simp add: replace_escapes_def replace_absent)

lemma contains_single: "contains s [x] \<Longrightarrow> x \<in> set s"
  by (induction s) (auto simp: startswith_def)

lemma fix_garbled_ascii: "\<forall>c\<in>set s. c < 128 \<Longrightarrow> fix_garbled s = Inr s"
proof -
  assume a: "\<forall>c\<in>set s. c < 128"
  then have "\<not> contains s [0xF0]" using contains_single by fastforce
  moreover from a have "\<not> (\<exists>c\<in>set s. c > 255)" by fastforce
  ultimately show ?thesis by (simp add: fix_garbled_def)
qed

lemma ensure_utf8_ascii: "\<forall>c\<in>set s. c < 128 \<Longrightarrow> ensure_utf8 s = Inr s"
  by (simp add: ensure_utf8_def encode_utf8_ascii decode_utf8_ascii)

lemma clean_description_plain_ascii:
  assumes "\<forall>c\<in>set s. c < 128" and "92 \<notin> set s"
  shows "clean_description g s = strip (trim_long (sub_newlines (clean_lines s)))"
proof -
  have d1: "try_except (codecs_decode_unicode_escape g s)
      [UnicodeDecodeError, UnicodeEncodeError] (Inr s) = Inr s"
    using assms
    by (simp add: codecs_decode_unicode_escape_def encode_utf8_ascii unicode_escape_decode_plain)
  have d2: "fix_garbled (replace_escapes s) = Inr s"
    using assms by (simp add: replace_escapes_plain fix_garbled_ascii)
  let ?t = "sub_newlines (clean_lines s)"
  have "set ?t \<subseteq> insert 10 (set s)"
    using set_sub_newlines [of "clean_lines s"] set_clean_lines [of s] by blast
  with assms(1) have "\<forall>c\<in>set ?t. c < 128" by auto
  then have d3: "ensure_utf8 ?t = Inr ?t" by (rule ensure_utf8_ascii)
  show ?thesis
    by (simp add: clean_description_def clean_description_body_def d1 d2 d3)
qed

lemma clean_description_clean_ascii:
  assumes "clean_ascii s"
  shows "clean_description g s = strip (sub_newlines (clean_lines s))"
proof -
  from assms have ascii: "\<forall>c\<in>set s. c < 128" and nb: "92 \<notin> set s" and len: "length s \<le> 2000"
    by (simp_all add: clean_ascii_def)
  have "length (sub_newlines (clean_lines s)) \<le> length s"
    using length_sub_newlines [of "clean_lines s"] length_clean_lines [of s] by linarith
  with len have "trim_long (sub_newlines (clean_lines s)) = sub_newlines (clean_lines s)"
    by (simp add: trim_long_def)
  with clean_description_plain_ascii [OF ascii nb, of g] show ?thesis by simp
qed





lemma clean_description_example:
  "clean_description (\<lambda>name. None) ([32, 72, 105, 32, 10, 10, 10, 10, 32, 33]) = [72, 105, 10, 10, 33]"
  by (simp add: clean_description_clean_ascii clean_ascii_def clean_lines_def split_nl_Cons
      strip_def lstrip_def rstrip_def py_isspace_def)

subsection \<open>Outside clean ASCII text\<close>

text \<open>
  Both conditions on clean text are needed. A text of more than 2000 characters that
  starts with a line feed is cut to 2000 characters and the dots, and then loses the line
  feed; the result has 2002 characters, and a second pass cuts it again and adds three
  more dots. A text with escaped backslashes loses one layer of escapes in each pass.
\<close>

lemma no_long_run_no_nl: "10 \<notin> set t \<Longrightarrow> no_long_run t"
  by (induction t) simp_all

lemma plain_line_fixed:
  assumes "10 \<notin> set t" and "stripped t"
  shows "clean_lines t = t" "sub_newlines t = t" "strip t = t"
proof -
  from assms show "clean_lines t = t"
    by (intro clean_lines_id) (simp add: lines_stripped_def split_no_nl)
  from assms(1) show "sub_newlines t = t" by (intro sub_newlines_id no_long_run_no_nl)
  from assms(2) show "strip t = t" by (rule stripped_strip_id)
qed

lemma long_text_first_pass:
  assumes "2000 \<le> n"
  shows "clean_description g (10 # replicate n 97) = replicate 1999 97 @ [46, 46, 46]"
proof -
  let ?s = "10 # replicate n 97"
  from assms have n: "n \<noteq> 0" by simp
  have st: "stripped (replicate n (97::nat))"
    using n by (simp add: stripped_def py_isspace_def)
  have "split ?s [10] = [[], replicate n 97]"
    by (simp add: split_nl_Cons split_no_nl)
  with st have "lines_stripped ?s" by (simp add: lines_stripped_def stripped_def)
  then have a: "clean_lines ?s = ?s" by (rule clean_lines_id)
  have "takeWhile (\<lambda>x. x = 10) (replicate n (97::nat)) = []"
    using n by (cases n) simp_all
  then have "no_long_run ?s" by (simp add: no_long_run_no_nl)
  then have b: "sub_newlines ?s = ?s" by (rule sub_newlines_id)
  have "take 1999 (replicate n 97) = replicate 1999 (97::nat)"
    using assms by (simp add: min_def)
  then have "take 2000 ?s = 10 # replicate 1999 97"
    by (simp add: take_Cons')
  with assms have c: "trim_long ?s = 10 # replicate 1999 97 @ [46, 46, 46]"
    by (simp add: trim_long_def ustr_def)
  have "stripped (replicate 1999 (97::nat) @ [46, 46, 46])"
    by (simp add: stripped_def py_isspace_def hd_append)
  then have "strip (replicate 1999 97 @ [46, 46, 46]) = replicate 1999 97 @ [46, 46, 46]"
    by (rule stripped_strip_id)
  moreover have "strip (10 # replicate 1999 97 @ [46, 46, 46]) =
      strip (replicate 1999 97 @ [46, 46, 46])"
    by (simp add: strip_def lstrip_def py_isspace_def)
  ultimately have d: "strip (10 # replicate 1999 97 @ [46, 46, 46]) =
      replicate 1999 97 @ [46, 46, 46]" by simp
  have "clean_description g ?s = strip (trim_long (sub_newlines (clean_lines ?s)))"
    by (rule clean_description_plain_ascii) auto
  then show ?thesis by (simp only: a b c d)
qed

lemma long_text_second_pass:
  "length (clean_description g (replicate 1999 97 @ [46, 46, 46])) = 2003"
proof -
  let ?t = "replicate 1999 (97::nat) @ [46, 46, 46]"
  have nl: "10 \<notin> set ?t" by auto
  have st: "stripped ?t" by (simp add: stripped_def py_isspace_def hd_append)
  have tr: "trim_long ?t = take 2000 ?t @ [46, 46, 46]" by (simp add: trim_long_def ustr_def)
  have "10 \<notin> set (take 2000 ?t @ [46, 46, 46])"
    using nl by (auto dest: in_set_takeD)
  moreover have "stripped (take 2000 ?t @ [46, 46, 46])"
    by (simp add: stripped_def py_isspace_def hd_append)
  ultimately have fx: "strip (take 2000 ?t @ [46, 46, 46]) = take 2000 ?t @ [46, 46, 46]"
    by (rule plain_line_fixed(3))
  have "clean_description g ?t = strip (trim_long (sub_newlines (clean_lines ?t)))"
    by (rule clean_description_plain_ascii) auto
  then have "clean_description g ?t = take 2000 ?t @ [46, 46, 46]"
    by (simp only: plain_line_fixed(1,2) [OF nl st] tr fx)
  then show ?thesis by simp
qed

lemma long_text_not_idempotent:
  "clean_description g (clean_description g (10 # replicate 2100 97))
   \<noteq> clean_description g (10 # replicate 2100 97)"
proof -
  have one: "clean_description g (10 # replicate 2100 97) = replicate 1999 97 @ [46, 46, 46]"
    by (rule long_text_first_pass) simp
  have "length (clean_description g (10 # replicate 2100 97)) = 2002"
    unfolding one by simp
  moreover have "length (clean_description g (clean_description g (10 # replicate 2100 97))) = 2003"
    unfolding one by (rule long_text_second_pass)
  ultimately show ?thesis by (metis numeral_eq_iff semiring_norm(88) semiring_norm(89))
qed

lemma escaped_text_not_idempotent:
  "clean_description (\<lambda>name. None) (clean_description (\<lambda>name. None) [97, 92, 92, 92, 92, 110, 98])
   \<noteq> clean_description (\<lambda>name. None) [97, 92, 92, 92, 92, 110, 98]"
proof -
  have ev1: "clean_description (\<lambda>name. None) [97, 92, 92, 92, 92, 110, 98] = [97, 92, 10, 98]"
    by (simp add: clean_description_def clean_description_body_def
      codecs_decode_unicode_escape_def encodable_def utf8_bytes_def escape_step_def
      simple_escape_def replace_escapes_def startswith_def fix_garbled_def ensure_utf8_def
      utf8_step_def clean_lines_def split_nl_Cons trim_long_def strip_def lstrip_def rstrip_def
      py_isspace_def Let_def)
  have ev2: "clean_description (\<lambda>name. None) [97, 92, 10, 98] = [97, 98]"
    by (simp add: clean_description_def clean_description_body_def
      codecs_decode_unicode_escape_def encodable_def utf8_bytes_def escape_step_def
      simple_escape_def replace_escapes_def startswith_def fix_garbled_def ensure_utf8_def
      utf8_step_def clean_lines_def split_nl_Cons trim_long_def strip_def lstrip_def rstrip_def
      py_isspace_def Let_def)
  show ?thesis by (simp add: ev1 ev2)
qed

subsection \<open>The inner handlers\<close>

text \<open>
  The inner handlers at work: a backslash at the end makes the decoder raise and the text
  is kept; a surrogate makes the encoder raise and is dropped by the repair step; text
  that was decoded one layer too early is only repaired when the decoder itself has
  produced the character \<open>0xF0\<close>.
\<close>

lemma clean_description_recovery_examples:
  "clean_description (\<lambda>name. None) [97, 92] = [97, 92]"
  "clean_description (\<lambda>name. None) [97, 0xD800, 98] = [97, 98]"
  "clean_description (\<lambda>name. None) [0xF0, 0x9F, 0x98, 0x80] = [0xC3, 0xB0, 0xC2, 0x9F, 0xC2, 0x98, 0xC2, 0x80]"
  "clean_description (\<lambda>name. None) [0x1F600] = [0x1F600]"
  by (simp_all add: clean_description_def clean_description_body_def
      codecs_decode_unicode_escape_def encodable_def utf8_bytes_def escape_step_def
      simple_escape_def replace_escapes_def startswith_def fix_garbled_def ensure_utf8_def
      encode_latin1_def utf8_step_def continuation_def clean_lines_def split_nl_Cons
      trim_long_def strip_def lstrip_def rstrip_def py_isspace_def Let_def)

section \<open>Properties of the identifier parser\<close>

subsection \<open>split at one character, at a marker\<close>

lemma split_char_Cons:
  "split (x # xs) [c] =
     (if x = c then [] # split xs [c]
      else (x # hd (split xs [c])) # tl (split xs [c]))"
  using split_not_Nil [of xs "[c]"]
  by (cases "split xs [c]") (auto simp: startswith_def split.simps)

lemma hd_split_char: "hd (split v [c]) = takeWhile (\<lambda>x. x \<noteq> c) v"
  by (induction v) (simp_all add: split_char_Cons)

lemma index_split_char_0: "index (split v [c]) 0 = Inr (takeWhile (\<lambda>x. x \<noteq> c) v)"
  using split_not_Nil [of v "[c]"]
  by (cases "split v [c]") (auto simp: index_def hd_split_char [symmetric])

lemma takeWhile_twice:
  "takeWhile P (takeWhile Q xs) = takeWhile (\<lambda>x. Q x \<and> P x) xs"
  by (induction xs) simp_all

lemma before_separators_cut:
  "takeWhile (\<lambda>x. x \<noteq> 63) (takeWhile (\<lambda>x. x \<noteq> 38) v) = before_separators v"
  by (simp add: takeWhile_twice before_separators_def)


lemma clean_video_id:
  "(case video_id of
      None \<Rightarrow> Inr None
    | Some v \<Rightarrow>
        if v \<noteq> [] then
          and_then (index (split v (ustr ''&'')) 0) (\<lambda>a.
          and_then (index (split a (ustr ''?'')) 0) (\<lambda>b. Inr (Some b)))
        else Inr (Some v))
   = Inr (map_option before_separators video_id)"
proof (cases video_id)
  case None
  then show ?thesis by simp
next
  case (Some v)
  have amp: "ustr ''&'' = [38]" and qm: "ustr ''?'' = [63]" by (simp_all add: ustr_def)
  show ?thesis
  proof (cases "v = []")
    case True
    with Some show ?thesis by (simp add: before_separators_def)
  next
    case False
    with Some show ?thesis
      by (simp add: amp qm index_split_char_0 before_separators_cut)
  qed
qed





lemma get_video_id_body_eq:
  "get_video_id_body urlparse parse_qs video_url =
     and_then (urlparse video_url) (\<lambda>parsed.
     and_then
       (if hostname parsed \<in> set [Some (ustr ''youtu.be'')]
        then Inr (Some (drop 1 (path parsed)))
        else if hostname parsed \<in> set [Some (ustr ''www.youtube.com''), Some (ustr ''youtube.com'')]
        then
          (if contains (path parsed) (ustr ''/watch'') then
             and_then (parse_qs (query parsed)) (\<lambda>qs.
               case qs (ustr ''v'') of
                 None \<Rightarrow> Inr None
               | Some vs \<Rightarrow> and_then (index vs 0) (\<lambda>v. Inr (Some v)))
           else if contains (path parsed) (ustr ''/embed/'') then
             and_then (index (split (path parsed) (ustr ''/embed/'')) 1) (\<lambda>a.
             and_then (index (split a (ustr ''?'')) 0) (\<lambda>b. Inr (Some b)))
           else if contains (path parsed) (ustr ''/v/'') then
             and_then (index (split (path parsed) (ustr ''/v/'')) 1) (\<lambda>a.
             and_then (index (split a (ustr ''?'')) 0) (\<lambda>b. Inr (Some b)))
           else Inr None)
        else Inr None)
       (\<lambda>video_id. Inr (map_option before_separators video_id)))"
  unfolding get_video_id_body_def clean_video_id ..








lemmas plain_library_defs =
  get_video_id_from_url_def get_video_id_body_def plain_urlparse_def plain_parse_qs_def
  ustr_def startswith_def scheme_char_def ascii_alpha_def ascii_lower_def index_def split.simps
  Let_def before_separators_def



lemma video_id_no_separator_body:
  "get_video_id_body urlparse parse_qs url = Inr (Some v) \<Longrightarrow> \<exists>x. v = before_separators x"
  unfolding get_video_id_body_eq by (auto simp: and_then_Inr_iff)

text \<open>
  C8, as amended. A value returned by the identifier parser that is not null contains
  neither \<^verbatim>\<open>&\<close> nor \<^verbatim>\<open>?\<close>. It can be the empty string.
\<close>

theorem video_id_no_separator:
  assumes "get_video_id_from_url urlparse parse_qs url = Some v"
  shows "38 \<notin> set v \<and> 63 \<notin> set v"
proof -
  from assms have "get_video_id_body urlparse parse_qs url = Inr (Some v)"
    by (auto simp: get_video_id_from_url_def split: sum.splits)
  then obtain x where "v = before_separators x"
    using video_id_no_separator_body by blast
  then show ?thesis
    unfolding before_separators_def using set_takeWhileD [of _ "\<lambda>c. c \<noteq> 38 \<and> c \<noteq> 63" x]
    by blast
qed

theorem video_id_no_separator_witness:
  "get_video_id_from_url plain_urlparse plain_parse_qs (ustr ''https://youtu.be/abc123?t=5'')
     = Some (ustr ''abc123'')
   \<and> 38 \<notin> set (ustr ''abc123'') \<and> 63 \<notin> set (ustr ''abc123'')"
proof -
  have "get_video_id_from_url plain_urlparse plain_parse_qs (ustr ''https://youtu.be/abc123?t=5'')
     = Some (ustr ''abc123'')"
    by (simp add: plain_library_defs)
  with video_id_no_separator [OF this] show ?thesis by simp
qed

text \<open>
  C8 as stated fails: for \<^verbatim>\<open>https://youtu.be/\<close> and for \<^verbatim>\<open>https://youtu.be/&t=5\<close> the parser
  returns the empty string, which is not null.
\<close>

theorem video_id_empty_counterexample:
  "get_video_id_from_url plain_urlparse plain_parse_qs (ustr ''https://youtu.be/'') = Some []
   \<and> get_video_id_from_url plain_urlparse plain_parse_qs (ustr ''https://youtu.be/&t=5'') = Some []"
  by (simp add: plain_library_defs)

section \<open>Properties of the tag extractor\<close>

lemma remove_duplicates_first_occurrences:
  "remove_duplicates tags seen unique_tags =
     unique_tags @
     map strip (first_occurrences (filter (\<lambda>t. t \<notin> seen \<and> length (strip t) > 0) tags))"
proof (induction tags arbitrary: seen unique_tags)
  case Nil
  then show ?case by simp
next
  case (Cons tag tags)
  have filt: "filter (\<lambda>y. y \<noteq> tag) (first_occurrences xs) =
      first_occurrences (filter (\<lambda>y. y \<noteq> tag) xs)" for xs :: "pystr list"
  proof (induction xs)
    case Nil
    then show ?case by simp
  next
    case (Cons x xs)
    from Cons [symmetric] show ?case by (auto simp: conj_commute)
  qed
  show ?case
  proof (cases "tag \<notin> seen \<and> length (strip tag) > 0")
    case True
    have "filter (\<lambda>y. y \<noteq> tag) (filter (\<lambda>t. t \<notin> seen \<and> length (strip t) > 0) tags) =
        filter (\<lambda>t. t \<notin> insert tag seen \<and> length (strip t) > 0) tags"
      by (induction tags) auto
    with True Cons.IH [of "insert tag seen" "unique_tags @ [strip tag]"] show ?thesis
      by (simp add: filt)
  next
    case False
    with Cons.IH [of seen unique_tags] show ?thesis by auto
  qed
qed

lemma remove_duplicates_not_blank:
  "\<forall>t\<in>set unique_tags. t \<noteq> [] \<and> strip t = t \<Longrightarrow>
   \<forall>t\<in>set (remove_duplicates tags seen unique_tags). t \<noteq> [] \<and> strip t = t"
proof (induction tags arbitrary: seen unique_tags)
  case Nil
  then show ?case by simp
next
  case (Cons tag tags)
  show ?case
  proof (cases "tag \<notin> seen \<and> length (strip tag) > 0")
    case True
    have "strip (strip tag) = strip tag" by (simp add: stripped_strip stripped_strip_id)
    with True Cons.prems have "\<forall>t\<in>set (unique_tags @ [strip tag]). t \<noteq> [] \<and> strip t = t"
      by auto
    from Cons.IH [OF this] True show ?thesis by simp
  next
    case False
    with Cons.IH [OF Cons.prems] show ?thesis by auto
  qed
qed

lemma tags_capped_and_not_blank:
  "length (fst (get_youtube_tags E url w)) \<le> 20 \<and>
   (\<forall>t\<in>set (fst (get_youtube_tags E url w)). t \<noteq> [] \<and> strip t = t)"
proof -
  have nb: "\<forall>t\<in>set (take 20 (remove_duplicates tags {} [])). t \<noteq> [] \<and> strip t = t"
    for tags
    using remove_duplicates_not_blank [of "[]" tags "{}"] by (auto dest: in_set_takeD)
  show ?thesis
    unfolding get_youtube_tags_def
    by (auto split: prod.splits sum.splits simp: nb)
qed

lemma search_array_example:
  "all_tags (ustr ''x \"keywords\": [\"a\",\" a\"] \"tags\":[\"b\",\"a\"]'')
   = [ustr ''a'', ustr '' a'', ustr ''b'', ustr ''a'']"
  by (simp add: all_tags_def match_array_def startswith_def ustr_def py_isspace_def
      findall_quoted.simps Let_def)

text \<open>
  C9 fails on the code. The loop remembers in \<^verbatim>\<open>seen\<close> the tag as found but appends the
  stripped tag, so two tags that differ only in surrounding white space both reach the
  output, as the same string: for the page \<^verbatim>\<open>"keywords":["a"," a"]\<close> the result holds
  \<^verbatim>\<open>a\<close> twice.
\<close>

theorem tags_duplicate_after_strip:
  "fst (get_youtube_tags
          (serving \<lparr>status_code = 200, text_body = ustr ''\"keywords\":[\"a\",\" a\"]'',
                    json = Inl JSONDecodeError\<rparr> no_match)
          (ustr ''https://youtu.be/abc123'') [])
   = [ustr ''a'', ustr ''a'']"
  by (simp add: get_youtube_tags_def serving_def raise_for_status_def all_tags_def
      match_array_def startswith_def ustr_def py_isspace_def findall_quoted.simps
      strip_def lstrip_def rstrip_def Let_def)

section \<open>Properties of the extraction strategies\<close>

lemma first_match_candidates:
  "first_match E dotall prepare patterns content current = current \<or>
   first_match E dotall prepare patterns content current
     \<in> set (candidates E dotall prepare patterns content)"
proof (induction patterns arbitrary: current)
  case Nil
  then show ?case by simp
next
  case (Cons p ps)
  show ?case
  proof (cases "lib_search E p dotall content")
    case None
    with Cons [of current] show ?thesis by simp
  next
    case (Some g)
    let ?c = "clean_description (lib_getcode E) (prepare g)"
    show ?thesis
    proof (cases "length (strip ?c) > 0")
      case True
      with Some show ?thesis by simp
    next
      case False
      with Some Cons [of ?c] show ?thesis by (auto simp: Let_def)
    qed
  qed
qed

lemma first_match_in:
  "first_match E dotall prepare patterns content d
     \<in> set (d # candidates E dotall prepare patterns content)"
  using first_match_candidates [of E dotall prepare patterns content d] by auto

lemma simple_extraction_result:
  assumes "fst (simple_extraction E url w) = Inr r"
  shows "(title r = ustr ''Title not found'' \<or>
          (\<exists>content. title r \<in> set (candidates E False without_suffix [TitleTag] content)))
       \<and> (description r = ustr ''Description not found'' \<or>
          (\<exists>content. description r \<in> set (candidates E False (\<lambda>g. g) [OgDescription] content)))"
proof (cases "net_get E \<lparr>req_url = url, req_headers = SimpleHeaders, req_timeout = 15\<rparr> w")
  case (Pair out w')
  show ?thesis
  proof (cases out)
    case (Inl e)
    with Pair assms show ?thesis by (auto simp: simple_extraction_def)
  next
    case (Inr response)
    let ?content = "text_body response"
    from Pair Inr assms have r: "r =
        \<lparr>title = (case lib_search E TitleTag False ?content of
                     None \<Rightarrow> ustr ''Title not found''
                   | Some g \<Rightarrow> clean_description (lib_getcode E) (without_suffix g)),
         description = (case lib_search E OgDescription False ?content of
                           None \<Rightarrow> ustr ''Description not found''
                         | Some g \<Rightarrow> clean_description (lib_getcode E) g)\<rparr>"
      by (simp add: simple_extraction_def Let_def)
    have t: "title r = ustr ''Title not found'' \<or>
        title r \<in> set (candidates E False without_suffix [TitleTag] ?content)"
      unfolding r by (cases "lib_search E TitleTag False ?content") simp_all
    have d: "description r = ustr ''Description not found'' \<or>
        description r \<in> set (candidates E False (\<lambda>g. g) [OgDescription] ?content)"
      unfolding r by (cases "lib_search E OgDescription False ?content") simp_all
    from t d show ?thesis by blast
  qed
qed

lemma method1_result:
  assumes "net_get E \<lparr>req_url = url, req_headers = Method1Headers, req_timeout = 15\<rparr> w
             = (Inr response, w')"
    and "fst (get_youtube_info_method1 E url w) = Inr r"
  shows "title r \<in> set (ustr ''Title not found'' #
            candidates E True (\<lambda>g. g)
              [VideoDetailsTitle, TitleTagYouTube, OgTitle, TitleBeforeLength] (text_body response))
       \<and> description r \<in> set (ustr ''Description not found'' #
            candidates E True (\<lambda>g. g)
              [VideoDetailsShortDescription, ShortDescription, OgDescription,
               SimpleTextDescription] (text_body response))"
proof -
  from assms have "r =
      \<lparr>title = first_match E True (\<lambda>g. g)
                 [VideoDetailsTitle, TitleTagYouTube, OgTitle, TitleBeforeLength]
                 (text_body response) (ustr ''Title not found''),
       description = first_match E True (\<lambda>g. g)
                 [VideoDetailsShortDescription, ShortDescription, OgDescription,
                  SimpleTextDescription]
                 (text_body response) (ustr ''Description not found'')\<rparr>"
    by (cases "raise_for_status response")
       (auto simp: get_youtube_info_method1_def Let_def split: if_splits)
  then show ?thesis
    using first_match_in [of E True "\<lambda>g. g"
        "[VideoDetailsTitle, TitleTagYouTube, OgTitle, TitleBeforeLength]"
        "text_body response" "ustr ''Title not found''"]
      first_match_in [of E True "\<lambda>g. g"
        "[VideoDetailsShortDescription, ShortDescription, OgDescription, SimpleTextDescription]"
        "text_body response" "ustr ''Description not found''"]
    by simp
qed

lemma method2_result:
  assumes "net_get E \<lparr>req_url = replace url (ustr ''www.youtube.com'') (ustr ''m.youtube.com''),
                       req_headers = Method2Headers, req_timeout = 15\<rparr> w
             = (Inr response, w')"
    and "fst (get_youtube_info_method2 E url w) = Inr r"
  shows "title r \<in> set (ustr ''Title not found'' #
            candidates E False without_suffix [TitleTag, JsonTitle, OgTitle] (text_body response))
       \<and> description r \<in> set (ustr ''Description not found'' #
            candidates E False (\<lambda>g. g) [OgDescription, JsonDescription, MetaDescription]
              (text_body response))"
proof -
  from assms have "r =
      \<lparr>title = first_match E False without_suffix [TitleTag, JsonTitle, OgTitle]
                 (text_body response) (ustr ''Title not found''),
       description = first_match E False (\<lambda>g. g)
                 [OgDescription, JsonDescription, MetaDescription]
                 (text_body response) (ustr ''Description not found'')\<rparr>"
    by (cases "raise_for_status response")
       (auto simp: get_youtube_info_method2_def Let_def)
  then show ?thesis
    using first_match_in [of E False without_suffix "[TitleTag, JsonTitle, OgTitle]"
        "text_body response" "ustr ''Title not found''"]
      first_match_in [of E False "\<lambda>g. g" "[OgDescription, JsonDescription, MetaDescription]"
        "text_body response" "ustr ''Description not found''"]
    by simp
qed

lemma method3_result:
  assumes "fst (get_youtube_info_method3 E url w) = Inr r"
  shows "(description r = ustr ''Description not found'' \<or>
          (\<exists>content. description r
             \<in> set (candidates E False (\<lambda>g. g) [ShortDescription, OgDescription] content)))
       \<and> (title r = ustr ''Title not found'' \<or>
          (\<exists>content. title r \<in> set (candidates E False without_suffix [TitleTag] content)) \<or>
          (\<exists>response w1 data.
             net_get E \<lparr>req_url = ustr ''https://www.youtube.com/oembed?url='' @ url @
                                    ustr ''&format=json'',
                         req_headers = Method3Headers, req_timeout = 10\<rparr> w = (Inr response, w1) \<and>
             status_code response = 200 \<and> json response = Inr data \<and>
             data (ustr ''title'') = Some (title r)))"
proof -
  let ?goal = ?thesis
  have simple: ?goal if "fst (simple_extraction E url w0) = Inr r" for w0
  proof -
    from simple_extraction_result [OF that]
    have t: "title r = ustr ''Title not found'' \<or>
          (\<exists>content. title r \<in> set (candidates E False without_suffix [TitleTag] content))"
      and d: "description r = ustr ''Description not found'' \<or>
          (\<exists>content. description r \<in> set (candidates E False (\<lambda>g. g) [OgDescription] content))"
      by blast+
    from d have "description r = ustr ''Description not found'' \<or>
          (\<exists>content. description r
             \<in> set (candidates E False (\<lambda>g. g) [ShortDescription, OgDescription] content))"
    proof
      assume "description r = ustr ''Description not found''"
      then show ?thesis by simp
    next
      assume "\<exists>content. description r \<in> set (candidates E False (\<lambda>g. g) [OgDescription] content)"
      then obtain content where
        "description r \<in> set (candidates E False (\<lambda>g. g) [OgDescription] content)" by blast
      then have "description r
          \<in> set (candidates E False (\<lambda>g. g) [ShortDescription, OgDescription] content)"
        by (cases "lib_search E ShortDescription False content") simp_all
      then show ?thesis by blast
    qed
    with t show ?thesis by blast
  qed
  let ?vid = "get_video_id_from_url (lib_urlparse E) (lib_parse_qs E) url"
  let ?oreq = "\<lparr>req_url = ustr ''https://www.youtube.com/oembed?url='' @ url @ ustr ''&format=json'',
               req_headers = Method3Headers, req_timeout = 10\<rparr>"
  show ?thesis
  proof (cases "?vid = None \<or> ?vid = Some []")
    case True
    with assms have "r = \<lparr>title = ustr ''Title not found'',
        description = ustr ''Description not found''\<rparr>"
      by (auto simp: get_youtube_info_method3_def Let_def)
    then show ?thesis by simp
  next
    case False
    then obtain v where novid: "?vid = Some v" "v \<noteq> []" by (cases ?vid) auto
    obtain out w1 where o: "net_get E ?oreq w = (out, w1)" by (cases "net_get E ?oreq w")
    show ?thesis
    proof (cases out)
      case (Inl e)
      with novid o assms have "fst (simple_extraction E url w1) = Inr r"
        by (simp add: get_youtube_info_method3_def Let_def)
      then show ?thesis by (rule simple)
    next
      case (Inr response)
      show ?thesis
      proof (cases "status_code response = 200")
        case False
        with novid o Inr assms have "fst (simple_extraction E url w1) = Inr r"
          by (simp add: get_youtube_info_method3_def Let_def)
        then show ?thesis by (rule simple)
      next
        case ok: True
        show ?thesis
        proof (cases "json response")
          case (Inl e)
          with novid o Inr ok assms have "fst (simple_extraction E url w1) = Inr r"
            by (simp add: get_youtube_info_method3_def Let_def)
          then show ?thesis by (rule simple)
        next
          case data: (Inr data)
          let ?mreq = "\<lparr>req_url = url, req_headers = Method3Headers, req_timeout = 10\<rparr>"
          obtain out2 w2 where m: "net_get E ?mreq w1 = (out2, w2)"
            by (cases "net_get E ?mreq w1")
          show ?thesis
          proof (cases out2)
            case (Inl e)
            with novid o Inr ok data m assms have "fst (simple_extraction E url w2) = Inr r"
              by (simp add: get_youtube_info_method3_def Let_def)
            then show ?thesis by (rule simple)
          next
            case main: (Inr main_response)
            let ?content = "text_body main_response"
            from novid o Inr ok data m main assms have r: "r =
                \<lparr>title = (case data (ustr ''title'') of
                             None \<Rightarrow> ustr ''Title not found'' | Some t \<Rightarrow> t),
                 description = (case lib_search E ShortDescription False ?content of
                                   None \<Rightarrow> ustr ''Description not found''
                                 | Some g \<Rightarrow> clean_description (lib_getcode E) g)\<rparr>"
              by (simp add: get_youtube_info_method3_def Let_def)
            have d: "description r = ustr ''Description not found'' \<or>
                description r
                  \<in> set (candidates E False (\<lambda>g. g) [ShortDescription, OgDescription] ?content)"
              unfolding r by (cases "lib_search E ShortDescription False ?content") simp_all
            have t: "title r = ustr ''Title not found'' \<or>
                data (ustr ''title'') = Some (title r)"
              unfolding r by (cases "data (ustr ''title'')") simp_all
            from d t o Inr ok data show ?thesis by blast
          qed
        qed
      qed
    qed
  qed
qed

lemma contains_replicate:
  "sub \<noteq> [] \<Longrightarrow> hd sub \<noteq> c \<Longrightarrow> \<not> contains (replicate n c) sub"
proof (induction n)
  case 0
  then show ?case by simp
next
  case (Suc n)
  from Suc.prems have "\<not> startswith (c # replicate n c) sub"
    by (cases sub) (auto simp: startswith_def)
  with Suc show ?case by simp
qed

lemma clean_song: "clean_description (\<lambda>name. None) (ustr '' Song'') = ustr ''Song''"
  by (simp add: clean_description_clean_ascii clean_ascii_def clean_lines_def split_nl_Cons
      strip_def lstrip_def rstrip_def py_isspace_def ustr_def)

text \<open>
  C4, as amended. A title or description returned by method 1 or method 2 is its sentinel
  or the normalizer applied to the text matched by one of the method's patterns in the
  page (for the title of method 2, after \<^verbatim>\<open> - YouTube\<close> is removed from the match). The same
  holds for the description of method 3 and for the title of its simple extraction. The
  title of the oEmbed path of method 3 is the \<^verbatim>\<open>title\<close> field of the JSON answer as received:
  it is not normalized.
\<close>

theorem strategies_return_normalized_matches:
  "(net_get E \<lparr>req_url = url, req_headers = Method1Headers, req_timeout = 15\<rparr> w
      = (Inr response, w') \<and>
    fst (get_youtube_info_method1 E url w) = Inr r \<longrightarrow>
      title r \<in> set (ustr ''Title not found'' #
          candidates E True (\<lambda>g. g)
            [VideoDetailsTitle, TitleTagYouTube, OgTitle, TitleBeforeLength] (text_body response))
      \<and> description r \<in> set (ustr ''Description not found'' #
          candidates E True (\<lambda>g. g)
            [VideoDetailsShortDescription, ShortDescription, OgDescription,
             SimpleTextDescription] (text_body response)))
   \<and> (net_get E \<lparr>req_url = replace url (ustr ''www.youtube.com'') (ustr ''m.youtube.com''),
                  req_headers = Method2Headers, req_timeout = 15\<rparr> w
      = (Inr response, w') \<and>
    fst (get_youtube_info_method2 E url w) = Inr r \<longrightarrow>
      title r \<in> set (ustr ''Title not found'' #
          candidates E False without_suffix [TitleTag, JsonTitle, OgTitle] (text_body response))
      \<and> description r \<in> set (ustr ''Description not found'' #
          candidates E False (\<lambda>g. g) [OgDescription, JsonDescription, MetaDescription]
            (text_body response)))
   \<and> (fst (get_youtube_info_method3 E url w) = Inr r \<longrightarrow>
      (description r = ustr ''Description not found'' \<or>
       (\<exists>content. description r
          \<in> set (candidates E False (\<lambda>g. g) [ShortDescription, OgDescription] content)))
      \<and> (title r = ustr ''Title not found'' \<or>
          (\<exists>content. title r \<in> set (candidates E False without_suffix [TitleTag] content)) \<or>
          (\<exists>oembed w1 data.
             net_get E \<lparr>req_url = ustr ''https://www.youtube.com/oembed?url='' @ url @
                                    ustr ''&format=json'',
                         req_headers = Method3Headers, req_timeout = 10\<rparr> w = (Inr oembed, w1) \<and>
             status_code oembed = 200 \<and> json oembed = Inr data \<and>
             data (ustr ''title'') = Some (title r))))"
  using method1_result [of E url w response w' r] method2_result [of E url w response w' r]
    method3_result [of E url w r]
  by blast

theorem strategies_return_normalized_matches_witness:
  "fst (get_youtube_info_method1
          (serving \<lparr>status_code = 200, text_body = replicate 1000 32,
                    json = Inl JSONDecodeError\<rparr> (only_match OgTitle (ustr '' Song'')))
          (ustr ''https://youtu.be/abc123'') [])
     = Inr \<lparr>title = ustr ''Song'', description = ustr ''Description not found''\<rparr>
   \<and> ustr ''Song'' \<in> set (ustr ''Title not found'' #
          candidates (serving \<lparr>status_code = 200, text_body = replicate 1000 32,
                    json = Inl JSONDecodeError\<rparr> (only_match OgTitle (ustr '' Song''))) True (\<lambda>g. g)
            [VideoDetailsTitle, TitleTagYouTube, OgTitle, TitleBeforeLength] (replicate 1000 32))
   \<and> fst (get_youtube_info_method2
          (serving \<lparr>status_code = 200, text_body = [],
                    json = Inl JSONDecodeError\<rparr> (only_match TitleTag (ustr '' Song - YouTube'')))
          (ustr ''https://youtu.be/abc123'') [])
     = Inr \<lparr>title = ustr ''Song'', description = ustr ''Description not found''\<rparr>
   \<and> fst (get_youtube_info_method3
          (serving \<lparr>status_code = 404, text_body = [],
                    json = Inl JSONDecodeError\<rparr> (only_match TitleTag (ustr '' Song - YouTube'')))
          (ustr ''https://youtu.be/abc123'') [])
     = Inr \<lparr>title = ustr ''Song'', description = ustr ''Description not found''\<rparr>"
proof -
  let ?R1 = "\<lparr>status_code = 200, text_body = replicate 1000 32, json = Inl JSONDecodeError\<rparr>"
  let ?E1 = "serving ?R1 (only_match OgTitle (ustr '' Song''))"
  let ?R2 = "\<lparr>status_code = 200, text_body = [], json = Inl JSONDecodeError\<rparr>"
  let ?E2 = "serving ?R2 (only_match TitleTag (ustr '' Song - YouTube''))"
  let ?R3 = "\<lparr>status_code = 404, text_body = [], json = Inl JSONDecodeError\<rparr>"
  let ?E3 = "serving ?R3 (only_match TitleTag (ustr '' Song - YouTube''))"
  let ?url = "ustr ''https://youtu.be/abc123''"
  let ?r = "\<lparr>title = ustr ''Song'', description = ustr ''Description not found''\<rparr>"
  have v: "get_video_id_from_url plain_urlparse plain_parse_qs ?url = Some (ustr ''abc123'')"
    by (simp add: plain_library_defs)
  have n: "ustr ''abc123'' \<noteq> []" "ustr ''Song'' \<noteq> []" "strip (ustr ''Song'') = ustr ''Song''"
    by (simp_all add: ustr_def strip_def lstrip_def rstrip_def py_isspace_def)
  have blocked: "\<not> contains (replicate 1000 32) (ustr ''unusual traffic'')"
    by (rule contains_replicate) (simp_all add: ustr_def)
  have suffix: "without_suffix (ustr '' Song - YouTube'') = ustr '' Song''"
    by (simp add: without_suffix_def ustr_def startswith_def)
  have m1: "fst (get_youtube_info_method1 ?E1 ?url []) = Inr ?r"
    using blocked n
    by (simp add: get_youtube_info_method1_def serving_def raise_for_status_def only_match_def
        ascii_lower_def clean_song Let_def)
  have m2: "fst (get_youtube_info_method2 ?E2 ?url []) = Inr ?r"
    using n
    by (simp add: get_youtube_info_method2_def serving_def raise_for_status_def only_match_def
        suffix clean_song Let_def)
  have m3: "fst (get_youtube_info_method3 ?E3 ?url []) = Inr ?r"
    using n v
    by (simp add: get_youtube_info_method3_def simple_extraction_def serving_def only_match_def
        suffix clean_song Let_def)
  have g1: "net_get ?E1 \<lparr>req_url = ?url, req_headers = Method1Headers, req_timeout = 15\<rparr> []
      = (Inr ?R1, [\<lparr>req_url = ?url, req_headers = Method1Headers, req_timeout = 15\<rparr>])"
    by (simp add: serving_def)
  from strategies_return_normalized_matches
    [of ?E1 ?url "[]" ?R1 "[\<lparr>req_url = ?url, req_headers = Method1Headers, req_timeout = 15\<rparr>]" ?r]
    g1 m1
  have "ustr ''Song'' \<in> set (ustr ''Title not found'' #
          candidates ?E1 True (\<lambda>g. g)
            [VideoDetailsTitle, TitleTagYouTube, OgTitle, TitleBeforeLength] (replicate 1000 32))"
    by simp
  with m1 m2 m3 show ?thesis by simp
qed

text \<open>
  C4 as stated fails: when the oEmbed answer has the title \<^verbatim>\<open> Song\<close>, with a leading space,
  method 3 returns it unchanged, and the normalizer would have removed the space.
\<close>

theorem oembed_title_not_normalized_counterexample:
  "fst (get_youtube_info_method3
          (serving \<lparr>status_code = 200, text_body = [],
                    json = Inr [ustr ''title'' \<mapsto> ustr '' Song'']\<rparr> no_match)
          (ustr ''https://youtu.be/abc123'') [])
     = Inr \<lparr>title = ustr '' Song'', description = ustr ''Description not found''\<rparr>
   \<and> clean_description
         (lib_getcode (serving \<lparr>status_code = 200, text_body = [],
                    json = Inr [ustr ''title'' \<mapsto> ustr '' Song'']\<rparr> no_match))
         (ustr '' Song'') \<noteq> ustr '' Song''"
proof -
  have v: "get_video_id_from_url plain_urlparse plain_parse_qs (ustr ''https://youtu.be/abc123'')
      = Some (ustr ''abc123'')"
    by (simp add: plain_library_defs)
  have n: "ustr ''abc123'' \<noteq> []" "ustr ''Song'' \<noteq> ustr '' Song''" by (simp_all add: ustr_def)
  show ?thesis
    by (simp add: get_youtube_info_method3_def serving_def v n no_match_def clean_song Let_def)
qed

text \<open>Method 3 ends every failure in its own handler: it always returns a result.\<close>

lemma simple_extraction_returns: "\<exists>r. fst (simple_extraction E url w) = Inr r"
  by (auto simp: simple_extraction_def Let_def split: prod.splits sum.splits)

lemma method3_never_raises: "\<exists>r. fst (get_youtube_info_method3 E url w) = Inr r"
  using simple_extraction_returns [of E url]
  by (auto simp: get_youtube_info_method3_def Let_def split: prod.splits sum.splits)

section \<open>Properties of the orchestrator\<close>

lemma passed_over_try_methods:
  "passed_over pre w = Some w1 \<Longrightarrow> try_methods (pre @ post) w = try_methods post w1"
  by (induction pre arbitrary: w) (auto split: prod.splits sum.splits if_splits)








lemma keep_trying_cases:
  "fst (keep_trying_for_description r ms w) = r \<or>
   (title (fst (keep_trying_for_description r ms w)) = title r \<and>
    description (fst (keep_trying_for_description r ms w))
      \<notin> set [ustr ''Description not found'', ustr ''Error''])"
  by (induction ms arbitrary: w) (auto split: prod.splits sum.splits)

lemma try_methods_cases:
  "fst (try_methods ms w) =
     \<lparr>title = ustr ''All extraction methods failed'',
      description = ustr ''Could not extract video information''\<rparr>
   \<or> (title (fst (try_methods ms w)) \<notin> set [ustr ''Title not found'', ustr ''Error''] \<and>
       (\<exists>m\<in>set ms. \<exists>w0 w1 r. m w0 = (Inr r, w1) \<and> title r = title (fst (try_methods ms w))))"
proof (induction ms arbitrary: w)
  case Nil
  then show ?case by simp
next
  case (Cons m ms)
  obtain out w' where mw: "m w = (out, w')" by (cases "m w")
  show ?case
  proof (cases out)
    case (Inl e)
    with mw have "try_methods (m # ms) w = try_methods ms w'" by simp
    with Cons.IH [of w'] show ?thesis by auto
  next
    case (Inr r)
    consider (full) "title r \<notin> set [ustr ''Title not found'', ustr ''Error'']"
        "description r \<notin> set [ustr ''Description not found'', ustr ''Error'']"
      | (part) "title r \<notin> set [ustr ''Title not found'', ustr ''Error'']"
        "description r \<in> set [ustr ''Description not found'', ustr ''Error'']"
      | (skip) "title r \<in> set [ustr ''Title not found'', ustr ''Error'']"
      by blast
    then show ?thesis
    proof cases
      case full
      with mw Inr have "try_methods (m # ms) w = (r, w')" by simp
      with full(1) mw Inr show ?thesis by auto
    next
      case part
      with mw Inr have eq: "try_methods (m # ms) w = keep_trying_for_description r ms w'"
        by simp
      from keep_trying_cases [of r ms w']
      have "title (fst (keep_trying_for_description r ms w')) = title r" by auto
      with eq part(1) mw Inr show ?thesis by auto
    next
      case skip
      with mw Inr have "try_methods (m # ms) w = try_methods ms w'" by simp
      with Cons.IH [of w'] show ?thesis by auto
    qed
  qed
qed

text \<open>
  C10, as amended. When the returned description is neither 'Description not found' nor
  'Could not extract video information', the returned title is neither 'Title not found'
  nor 'Error', and it is the title some strategy returned. A strategy that returns a
  sentinel title is passed over by the outer loop, whatever its description.
\<close>

theorem usable_description_has_strategy_title:
  "(description (fst (try_methods ms w))
      \<notin> set [ustr ''Description not found'', ustr ''Could not extract video information''] \<longrightarrow>
    title (fst (try_methods ms w)) \<notin> set [ustr ''Title not found'', ustr ''Error''] \<and>
    (\<exists>m\<in>set ms. \<exists>w0 w1 r. m w0 = (Inr r, w1) \<and> title r = title (fst (try_methods ms w))))
   \<and> (m w = (Inr r, w') \<and> title r \<in> set [ustr ''Title not found'', ustr ''Error''] \<longrightarrow>
        try_methods (m # rest) w = try_methods rest w')"
proof -
  have "description (fst (try_methods ms w)) = ustr ''Could not extract video information''"
    if "fst (try_methods ms w) =
     \<lparr>title = ustr ''All extraction methods failed'',
      description = ustr ''Could not extract video information''\<rparr>"
    using that by simp
  with try_methods_cases [of ms w] show ?thesis by auto
qed

theorem usable_description_has_strategy_title_witness:
  "title (fst (try_methods [stub 1 (Inr \<lparr>title = ustr ''Title not found'', description = ustr ''D1''\<rparr>),
       stub 2 (Inr \<lparr>title = ustr ''T2'', description = ustr ''D2''\<rparr>)] []))
     \<notin> set [ustr ''Title not found'', ustr ''Error'']
   \<and> try_methods [stub 1 (Inr \<lparr>title = ustr ''Title not found'', description = ustr ''D1''\<rparr>),
       stub 2 (Inr \<lparr>title = ustr ''T2'', description = ustr ''D2''\<rparr>)] []
     = try_methods [stub 2 (Inr \<lparr>title = ustr ''T2'', description = ustr ''D2''\<rparr>)] [1]
   \<and> description (fst (try_methods [stub 1 (Inr \<lparr>title = ustr ''Title not found'', description = ustr ''D1''\<rparr>),
       stub 2 (Inr \<lparr>title = ustr ''T2'', description = ustr ''D2''\<rparr>)] [])) = ustr ''D2''"
  using usable_description_has_strategy_title
    [of "[stub 1 (Inr \<lparr>title = ustr ''Title not found'', description = ustr ''D1''\<rparr>),
       stub 2 (Inr \<lparr>title = ustr ''T2'', description = ustr ''D2''\<rparr>)]" "[]"
       "stub 1 (Inr \<lparr>title = ustr ''Title not found'', description = ustr ''D1''\<rparr>)"
       "\<lparr>title = ustr ''Title not found'', description = ustr ''D1''\<rparr>" "[1]"
       "[stub 2 (Inr \<lparr>title = ustr ''T2'', description = ustr ''D2''\<rparr>)]"]
  by (simp add: stub_def ustr_def)

text \<open>
  C10 as stated fails: a strategy that returns the title 'All extraction methods failed'
  with a real description is a full success, and the orchestrator returns both.
\<close>

theorem failure_title_with_usable_description_counterexample:
  "\<not> (description (fst (try_methods
          [stub 1 (Inr \<lparr>title = ustr ''All extraction methods failed'',
                         description = ustr ''A real description''\<rparr>)] []))
        \<notin> set [ustr ''Description not found'', ustr ''Could not extract video information'']
      \<longrightarrow>
      title (fst (try_methods
          [stub 1 (Inr \<lparr>title = ustr ''All extraction methods failed'',
                         description = ustr ''A real description''\<rparr>)] []))
        \<notin> set [ustr ''Title not found'', ustr ''All extraction methods failed''])"
  by (simp add: stub_def ustr_def)

text \<open>
  The function itself, with its three methods: when each of them raises or returns a
  sentinel title, the answer is the pair of failure sentinels.
\<close>

lemma get_youtube_info_total_failure:
  assumes "passed_over
      [get_youtube_info_method1 E url, get_youtube_info_method2 E url,
       get_youtube_info_method3 E url] w = Some w'"
  shows "get_youtube_info E url w =
     (\<lparr>title = ustr ''All extraction methods failed'',
       description = ustr ''Could not extract video information''\<rparr>, w')"
  using passed_over_try_methods [OF assms, of "[]"] by (simp add: get_youtube_info_def)

end
